theory Spec2Isabelle
  imports Main
begin

section \<open>Python values and exceptions\<close>

text \<open>
  Values decoded from JSON (\<^verbatim>\<open>json.loads\<close>): the build request of \<^verbatim>\<open>src/main.py\<close> and the
  \<^verbatim>\<open>USER_ENVIRONMENT_VARIABLES\<close> array of \<^verbatim>\<open>tasks/main.py\<close>. A dict is an association list in
  insertion order, with distinct keys. JSON numbers are integers here; no definition below
  computes with them. A string is a list of characters with code points below 256.
\<close>

datatype jv =
    JNull
  | JBool bool
  | JNum int
  | JStr string
  | JArr "jv list"
  | JObj "(string \<times> jv) list"

text \<open>
  The exceptions that derive from \<^verbatim>\<open>Exception\<close>. \<^verbatim>\<open>TimeoutException\<close> is stopit's,
  \<^verbatim>\<open>UnexpectedExit\<close> is invoke's and carries \<^verbatim>\<open>str(err)\<close>; the last constructor stands for
  every other class, with its \<^verbatim>\<open>str(err)\<close>.
\<close>

datatype exn =
    TimeoutException
  | UnexpectedExit string
  | KeyError string
  | TypeError string
  | ValueError string
  | OtherException string

text \<open>What leaves a function by raising: an \<^verbatim>\<open>Exception\<close>, or the \<^verbatim>\<open>SystemExit\<close> of
  \<^verbatim>\<open>exit(n)\<close>, which \<^verbatim>\<open>except Exception\<close> does not catch.\<close>

datatype raised = Exn exn | SystemExit int

definition squote :: char where
  "squote = CHR 0x27"

definition dquote :: char where
  "dquote = CHR 0x22"

definition backslash :: char where
  "backslash = CHR 0x5C"

text \<open>\<^verbatim>\<open>sep.join(xs)\<close>.\<close>

fun join :: "string \<Rightarrow> string list \<Rightarrow> string" where
  "join sep [] = []"
| "join sep [x] = x"
| "join sep (x # y # ys) = x @ sep @ join sep (y # ys)"

text \<open>\<^verbatim>\<open>s.replace(c, r)\<close> for a pattern \<open>c\<close> of one character.\<close>

definition replace_char :: "char \<Rightarrow> string \<Rightarrow> string \<Rightarrow> string" where
  "replace_char c r s = concat (map (\<lambda>x. if x = c then r else [x]) s)"

text \<open>\<^verbatim>\<open>d[k]\<close> on a dict: \<^verbatim>\<open>KeyError\<close> when the key is missing; \<^verbatim>\<open>str(KeyError(k))\<close> is the
  key's \<^verbatim>\<open>repr\<close>, and the constructor keeps the key itself.\<close>

definition getitem :: "(string \<times> 'v) list \<Rightarrow> string \<Rightarrow> exn + 'v" where
  "getitem d k = (case map_of d k of None \<Rightarrow> Inl (KeyError k) | Some v \<Rightarrow> Inr v)"

text \<open>\<^verbatim>\<open>os.environ[k]\<close> and \<^verbatim>\<open>os.getenv(k, default)\<close>.\<close>

definition environ :: "(string \<rightharpoonup> string) \<Rightarrow> string \<Rightarrow> exn + string" where
  "environ env k = (case env k of None \<Rightarrow> Inl (KeyError k) | Some v \<Rightarrow> Inr v)"

definition getenv :: "(string \<rightharpoonup> string) \<Rightarrow> string \<Rightarrow> string \<Rightarrow> string" where
  "getenv env k dflt = (case env k of None \<Rightarrow> dflt | Some v \<Rightarrow> v)"

text \<open>Sequencing of steps that may raise.\<close>

definition bindE :: "'e + 'a \<Rightarrow> ('a \<Rightarrow> 'e + 'b) \<Rightarrow> 'e + 'b" where
  "bindE m f = (case m of Inl e \<Rightarrow> Inl e | Inr x \<Rightarrow> f x)"


section \<open>\<^verbatim>\<open>shlex.quote\<close>\<close>

text \<open>
  \<^verbatim>\<open>_find_unsafe = re.compile(r'[^\w@%+=:,./-]', re.ASCII).search\<close>: under \<^verbatim>\<open>re.ASCII\<close> the
  class \<^verbatim>\<open>\w\<close> is \<^verbatim>\<open>[a-zA-Z0-9_]\<close>.
\<close>

definition word_char :: "char \<Rightarrow> bool" where
  "word_char c =
     (let n = (of_char c :: nat)
      in (48 \<le> n \<and> n \<le> 57) \<or> (65 \<le> n \<and> n \<le> 90) \<or> n = 95 \<or> (97 \<le> n \<and> n \<le> 122))"

definition safe_char :: "char \<Rightarrow> bool" where
  "safe_char c = (word_char c \<or> c \<in> set ''@%+=:,./-'')"

definition find_unsafe :: "string \<Rightarrow> char option" where
  "find_unsafe s = find (\<lambda>c. \<not> safe_char c) s"

text \<open>
  \<^verbatim>\<open>
  def quote(s):
      if not s:
          return "''"
      if _find_unsafe(s) is None:
          return s
      return "'" + s.replace("'", "'\"'\"'") + "'"
  \<close>
\<close>

definition shlex_quote :: "string \<Rightarrow> string" where
  "shlex_quote s =
     (if s = [] then [squote, squote]
      else if find_unsafe s = None then s
      else [squote] @ replace_char squote [squote, dquote, squote, dquote, squote] s @ [squote])"

text \<open>
  The same function on a value that need not be a string, as \<^verbatim>\<open>src/main.py\<close> applies it to
  entries of the decoded request: a falsy value gives \<^verbatim>\<open>''\<close>, and the regular expression
  search raises \<^verbatim>\<open>TypeError\<close> on any other value that is not a string.
\<close>

fun falsy :: "jv \<Rightarrow> bool" where
  "falsy JNull = True"
| "falsy (JBool b) = (\<not> b)"
| "falsy (JNum n) = (n = 0)"
| "falsy (JStr s) = (s = [])"
| "falsy (JArr xs) = (xs = [])"
| "falsy (JObj kvs) = (kvs = [])"

definition quote_value :: "jv \<Rightarrow> exn + string" where
  "quote_value v =
     (if falsy v then Inr [squote, squote]
      else case v of
             JStr s \<Rightarrow> Inr (shlex_quote s)
           | _ \<Rightarrow> Inl (TypeError ''expected string or bytes-like object''))"


section \<open>Reading a command line as the shell does\<close>

text \<open>
  The reference against which quoting is judged: how a shell (bash, not interactive, which is
  what \<^verbatim>\<open>ctx.run\<close> starts) divides a command line into tokens and removes the quoting. It
  is written from the shell's rules and uses nothing of \<^verbatim>\<open>shlex\<close>. A \<open>Word\<close> is a word
  all of whose characters are literal and that the shell takes as a command name or an
  argument; an \<open>Assignment\<close> is a word that the shell takes as a variable assignment; an
  \<open>Op\<close> is a control character. What the reader cannot tell to be literal, it does not read:
  it gives up with \<open>None\<close> on redirections, on every expansion (parameter, command,
  arithmetic, pathname, tilde, brace, history), on a reserved word where a command starts,
  on a quote left open and on a backslash at the end.
\<close>

definition newline :: char where
  "newline = CHR 0x0A"

definition backquote :: char where
  "backquote = CHR 0x60"

definition sh_blank :: "char \<Rightarrow> bool" where
  "sh_blank c = (c = CHR '' '' \<or> c = CHR 0x09)"

text \<open>The control characters that separate commands or group them.\<close>

definition sh_operator :: "char \<Rightarrow> bool" where
  "sh_operator c = (c \<in> set '';&|()'' \<or> c = newline)"

text \<open>The characters of redirections and expansions.\<close>

definition sh_unread :: "char \<Rightarrow> bool" where
  "sh_unread c = (c \<in> set ''<>$*?[]~{}!^'' \<or> c = backquote)"

text \<open>The characters that stand for themselves wherever they are outside quotes. The hash
  sign is not among them: where a word starts it opens a comment.\<close>

definition sh_literal :: "char \<Rightarrow> bool" where
  "sh_literal c =
     (\<not> sh_blank c \<and> \<not> sh_operator c \<and> \<not> sh_unread c \<and> c \<noteq> squote \<and> c \<noteq> dquote
      \<and> c \<noteq> backslash \<and> c \<noteq> CHR ''#'')"

text \<open>A name of a variable, and what may stand before the \<^verbatim>\<open>=\<close> of an assignment: a name,
  or a name and \<^verbatim>\<open>+\<close>.\<close>

definition sh_letter :: "char \<Rightarrow> bool" where
  "sh_letter c = (c \<in> set ''abcdefghijklmnopqrstuvwxyzABCDEFGHIJKLMNOPQRSTUVWXYZ_'')"

definition sh_digit :: "char \<Rightarrow> bool" where
  "sh_digit c = (c \<in> set ''0123456789'')"

fun sh_name :: "string \<Rightarrow> bool" where
  "sh_name [] = False"
| "sh_name (c # cs) = (sh_letter c \<and> list_all (\<lambda>x. sh_letter x \<or> sh_digit x) cs)"

definition assignable :: "string \<Rightarrow> bool" where
  "assignable w = (sh_name w \<or> (w \<noteq> [] \<and> last w = CHR ''+'' \<and> sh_name (butlast w)))"

definition reserved :: "string \<Rightarrow> bool" where
  "reserved w =
     (w \<in> set [''case'', ''coproc'', ''do'', ''done'', ''elif'', ''else'', ''esac'', ''fi'',
                ''for'', ''function'', ''if'', ''in'', ''select'', ''then'', ''time'', ''until'',
                ''while''])"

text \<open>
  The state of the reader: the quoting mode, the word being read (if any) and the tokens read.
  The word being read has its characters so far and its kind: \<open>Bare\<close> when nothing of it
  was quoted, \<open>Assign\<close> when it began, unquoted, with what may stand before \<^verbatim>\<open>=\<close> and the
  \<^verbatim>\<open>=\<close>, \<open>Quoted\<close> otherwise.
\<close>

datatype quoting = Unquoted | Escaped | InSingle | InDouble | DoubleEscaped | Comment

datatype token = Word string | Assignment string | Op char

datatype kind = Bare | Quoted | Assign

type_synonym lexst = "quoting \<times> (string \<times> kind) option \<times> token list"

fun word_so_far :: "(string \<times> kind) option \<Rightarrow> string" where
  "word_so_far None = []"
| "word_so_far (Some (w, k)) = w"

fun quoted :: "(string \<times> kind) option \<Rightarrow> (string \<times> kind) option" where
  "quoted None = Some ([], Quoted)"
| "quoted (Some (w, Bare)) = Some (w, Quoted)"
| "quoted (Some (w, k)) = Some (w, k)"

fun add_char :: "(string \<times> kind) option \<Rightarrow> char \<Rightarrow> (string \<times> kind) option" where
  "add_char None c = Some ([c], Quoted)"
| "add_char (Some (w, k)) c = Some (w @ [c], k)"

fun add_bare :: "(string \<times> kind) option \<Rightarrow> char \<Rightarrow> (string \<times> kind) option" where
  "add_bare None c = Some ([c], Bare)"
| "add_bare (Some (w, k)) c =
     Some (w @ [c], if c = CHR ''='' \<and> k = Bare \<and> assignable w then Assign else k)"

text \<open>A word that follows a \<open>Word\<close> is an argument. Any other word is where a command
  starts: there an assignment is an assignment and a bare reserved word is not read.\<close>

fun argument_position :: "token list \<Rightarrow> bool" where
  "argument_position [] = False"
| "argument_position [Word w] = True"
| "argument_position [t] = False"
| "argument_position (t # ts) = argument_position ts"

fun close_word :: "(string \<times> kind) option \<Rightarrow> token list \<Rightarrow> token list option" where
  "close_word None ws = Some ws"
| "close_word (Some (w, k)) ws =
     (if argument_position ws then Some (ws @ [Word w])
      else case k of
             Assign \<Rightarrow> Some (ws @ [Assignment w])
           | Quoted \<Rightarrow> Some (ws @ [Word w])
           | Bare \<Rightarrow> if reserved w then None else Some (ws @ [Word w]))"

fun sh_step :: "lexst \<Rightarrow> char \<Rightarrow> lexst option" where
  "sh_step (Unquoted, cur, ws) c =
     (if sh_blank c then map_option (\<lambda>ws'. (Unquoted, None, ws')) (close_word cur ws)
      else if sh_operator c then
        map_option (\<lambda>ws'. (Unquoted, None, ws' @ [Op c])) (close_word cur ws)
      else if sh_unread c then None
      else if c = backslash then Some (Escaped, cur, ws)
      else if c = squote then Some (InSingle, quoted cur, ws)
      else if c = dquote then Some (InDouble, quoted cur, ws)
      else if c = CHR ''#'' \<and> cur = None then Some (Comment, None, ws)
      else Some (Unquoted, add_bare cur c, ws))"
| "sh_step (Escaped, cur, ws) c =
     (if c = newline then Some (Unquoted, cur, ws)
      else Some (Unquoted, add_char (quoted cur) c, ws))"
| "sh_step (InSingle, cur, ws) c =
     (if c = squote then Some (Unquoted, cur, ws)
      else Some (InSingle, add_char cur c, ws))"
| "sh_step (InDouble, cur, ws) c =
     (if c = dquote then Some (Unquoted, cur, ws)
      else if c = CHR ''$'' \<or> c = backquote then None
      else if c = backslash then Some (DoubleEscaped, cur, ws)
      else Some (InDouble, add_char cur c, ws))"
| "sh_step (DoubleEscaped, cur, ws) c =
     (if c = CHR ''$'' \<or> c = backquote \<or> c = dquote \<or> c = backslash then
        Some (InDouble, add_char cur c, ws)
      else if c = newline then Some (InDouble, cur, ws)
      else Some (InDouble, add_char (add_char cur backslash) c, ws))"
| "sh_step (Comment, cur, ws) c =
     (if c = newline then Some (Unquoted, None, ws @ [Op c])
      else Some (Comment, cur, ws))"

fun sh_lex :: "lexst \<Rightarrow> string \<Rightarrow> lexst option" where
  "sh_lex st [] = Some st"
| "sh_lex st (c # cs) = (case sh_step st c of None \<Rightarrow> None | Some st' \<Rightarrow> sh_lex st' cs)"

text \<open>The tokens of a whole command line.\<close>

fun sh_finish :: "lexst option \<Rightarrow> token list option" where
  "sh_finish (Some (Unquoted, cur, ws)) = close_word cur ws"
| "sh_finish (Some (Comment, cur, ws)) = Some ws"
| "sh_finish r = None"

definition sh_words :: "string \<Rightarrow> token list option" where
  "sh_words cmd = sh_finish (sh_lex (Unquoted, None, []) cmd)"

section \<open>The task runner: \<^verbatim>\<open>run_task\<close>'s command line\<close>

text \<open>
  \<^verbatim>\<open>
  flag_args = []
  if flags_dict:
      for flag, val in flags_dict.items():
          quoted_val = shlex.quote(val)
          flag_args.append(f"{flag}={quoted_val}")
  command = f'inv {task_name} {" ".join(flag_args)}'
  \<close>
  \<open>flags_dict\<close> is \<open>None\<close> or a dict of strings, in insertion order.
\<close>

definition flag_args :: "(string \<times> string) list option \<Rightarrow> string list" where
  "flag_args flags_dict =
     (case flags_dict of
        None \<Rightarrow> []
      | Some d \<Rightarrow> map (\<lambda>(flag, val). flag @ ''='' @ shlex_quote val) d)"

definition command :: "string \<Rightarrow> (string \<times> string) list option \<Rightarrow> string" where
  "command task_name flags_dict = ''inv '' @ task_name @ '' '' @ join '' '' (flag_args flags_dict)"


section \<open>The secret set: \<^verbatim>\<open>private_values\<close>\<close>

text \<open>
  \<^verbatim>\<open>
  def private_values(user_values):
      priv_vals = [os.environ['AWS_ACCESS_KEY_ID'], os.environ['AWS_SECRET_ACCESS_KEY']]
      GITHUB_TOKEN = os.getenv('GITHUB_TOKEN', '')
      if GITHUB_TOKEN:
          priv_vals.append(GITHUB_TOKEN)
      return priv_vals + user_values
  \<close>
\<close>

definition private_values :: "(string \<rightharpoonup> string) \<Rightarrow> string list \<Rightarrow> exn + string list" where
  "private_values env user_values =
     bindE (environ env ''AWS_ACCESS_KEY_ID'') (\<lambda>access_key.
     bindE (environ env ''AWS_SECRET_ACCESS_KEY'') (\<lambda>secret_key.
       let priv_vals = [access_key, secret_key];
           GITHUB_TOKEN = getenv env ''GITHUB_TOKEN'' [];
           priv_vals = (if GITHUB_TOKEN \<noteq> [] then priv_vals @ [GITHUB_TOKEN] else priv_vals)
       in Inr (priv_vals @ user_values)))"


section \<open>The parameter sanitizer: \<^verbatim>\<open>src/main.py\<close>\<close>

text \<open>\<^verbatim>\<open>k.lower()\<close>, on the ASCII letters.\<close>

definition lower_char :: "char \<Rightarrow> char" where
  "lower_char c =
     (case map_of (zip ''ABCDEFGHIJKLMNOPQRSTUVWXYZ'' ''abcdefghijklmnopqrstuvwxyz'') c of
        None \<Rightarrow> c
      | Some l \<Rightarrow> l)"

definition lower :: "string \<Rightarrow> string" where
  "lower s = map lower_char s"

text \<open>\<^verbatim>\<open>d[k] = v\<close> on a dict: a present key keeps its place and takes the new value, a new
  key goes last.\<close>

fun dict_set :: "(string \<times> 'v) list \<Rightarrow> string \<Rightarrow> 'v \<Rightarrow> (string \<times> 'v) list" where
  "dict_set [] k v = [(k, v)]"
| "dict_set ((k', v') # d) k v = (if k' = k then (k, v) # d else (k', v') # dict_set d k v)"

fun type_name :: "jv \<Rightarrow> string" where
  "type_name JNull = ''NoneType''"
| "type_name (JBool b) = ''bool''"
| "type_name (JNum n) = ''int''"
| "type_name (JStr s) = ''str''"
| "type_name (JArr xs) = ''list''"
| "type_name (JObj kvs) = ''dict''"

text \<open>
  \<^verbatim>\<open>
  if 'FEDERALIST_BUILDER_CALLBACK' in params:
      os.environ['FEDERALIST_BUILDER_CALLBACK'] = params['FEDERALIST_BUILDER_CALLBACK']
  \<close>
  and the same for \<^verbatim>\<open>STATUS_CALLBACK\<close>. \<^verbatim>\<open>os.environ\<close> accepts strings only.
\<close>

definition promote ::
  "(string \<times> jv) list \<Rightarrow> string \<Rightarrow> (string \<rightharpoonup> string) \<Rightarrow> exn + (string \<rightharpoonup> string)" where
  "promote params name env =
     (case map_of params name of
        None \<Rightarrow> Inr env
      | Some (JStr s) \<Rightarrow> Inr (env(name \<mapsto> s))
      | Some v \<Rightarrow> Inl (TypeError (''str expected, not '' @ type_name v)))"

text \<open>
  \<^verbatim>\<open>
  build_arguments = inspect.getfullargspec(build)[0]
  for k in params:
      if k not in build_arguments:
          print(f'WARNING - Ignoring unused build argument: {k}')
  kwargs = {k.lower(): v for (k, v) in params.items() if v is not None and k in build_arguments}
  \<close>
  \<open>build_arguments\<close>, the parameter names of \<^verbatim>\<open>build\<close>, is a parameter of the model.
\<close>

definition unused_warnings :: "string list \<Rightarrow> (string \<times> jv) list \<Rightarrow> string list" where
  "unused_warnings build_arguments params =
     map (\<lambda>k. ''WARNING - Ignoring unused build argument: '' @ k)
       (filter (\<lambda>k. k \<notin> set build_arguments) (map fst params))"

definition build_kwargs :: "string list \<Rightarrow> (string \<times> jv) list \<Rightarrow> (string \<times> jv) list" where
  "build_kwargs build_arguments params =
     foldl (\<lambda>kwargs (k, v). dict_set kwargs (lower k) v) []
       (filter (\<lambda>(k, v). v \<noteq> JNull \<and> k \<in> set build_arguments) params)"

text \<open>
  \<^verbatim>\<open>
  uevs = kwargs['user_environment_variables']
  if uevs and isinstance(uevs, str):
      kwargs['user_environment_variables'] = json.loads(uevs)
  \<close>
  \<open>json_loads\<close> is a parameter: the decoder, which may raise.
\<close>

definition decode_uevs ::
  "(string \<Rightarrow> exn + jv) \<Rightarrow> (string \<times> jv) list \<Rightarrow> exn + (string \<times> jv) list" where
  "decode_uevs json_loads kwargs =
     bindE (getitem kwargs ''user_environment_variables'') (\<lambda>uevs.
       case uevs of
         JStr s \<Rightarrow>
           (if s \<noteq> [] then
              bindE (json_loads s) (\<lambda>v. Inr (dict_set kwargs ''user_environment_variables'' v))
            else Inr kwargs)
       | _ \<Rightarrow> Inr kwargs)"

text \<open>\<^verbatim>\<open>kwargs[name] = shlex.quote(kwargs[name])\<close>\<close>

definition quote_kwarg :: "string \<Rightarrow> (string \<times> jv) list \<Rightarrow> exn + (string \<times> jv) list" where
  "quote_kwarg name kwargs =
     bindE (getitem kwargs name) (\<lambda>v.
     bindE (quote_value v) (\<lambda>q.
       Inr (dict_set kwargs name (JStr q))))"

text \<open>
  Lines 41 to 62 of \<^verbatim>\<open>src/main.py\<close>, from the decoded request to the keyword arguments of
  \<^verbatim>\<open>build\<close>: the lines printed, the process environment after the callback URLs were
  promoted, and the keyword arguments or the exception that ended the program.
\<close>

definition validated_kwargs ::
  "(string \<Rightarrow> exn + jv) \<Rightarrow> string list \<Rightarrow> (string \<times> jv) list \<Rightarrow> exn + (string \<times> jv) list" where
  "validated_kwargs json_loads build_arguments params =
     bindE (decode_uevs json_loads (build_kwargs build_arguments params)) (\<lambda>kwargs.
     bindE (quote_kwarg ''branch'' kwargs) (\<lambda>kwargs.
     bindE (quote_kwarg ''owner'' kwargs) (\<lambda>kwargs.
     quote_kwarg ''repository'' kwargs)))"

definition sanitize ::
  "(string \<Rightarrow> exn + jv) \<Rightarrow> string list \<Rightarrow> (string \<rightharpoonup> string) \<Rightarrow> (string \<times> jv) list
     \<Rightarrow> string list \<times> (string \<rightharpoonup> string) \<times> (exn + (string \<times> jv) list)" where
  "sanitize json_loads build_arguments env params =
     (case promote params ''FEDERALIST_BUILDER_CALLBACK'' env of
        Inl e \<Rightarrow> ([], env, Inl e)
      | Inr env1 \<Rightarrow>
          (case promote params ''STATUS_CALLBACK'' env1 of
             Inl e \<Rightarrow> ([], env1, Inl e)
           | Inr env2 \<Rightarrow>
               (unused_warnings build_arguments params, env2,
                validated_kwargs json_loads build_arguments params)))"


section \<open>\<^verbatim>\<open>json.dumps\<close>\<close>

text \<open>
  The default encoder: \<^verbatim>\<open>ensure_ascii\<close>, separators \<^verbatim>\<open>', '\<close> and \<^verbatim>\<open>': '\<close>. In a string the
  backslash, the double quote and the five named control characters have a two-character
  escape; every other character outside \<^verbatim>\<open>' '..'~'\<close> is written \<^verbatim>\<open>\u00XX\<close>.
\<close>

definition hex_digit :: "nat \<Rightarrow> char" where
  "hex_digit n = ''0123456789abcdef'' ! (n mod 16)"

definition json_escape_char :: "char \<Rightarrow> string" where
  "json_escape_char c =
     (if c = backslash then [backslash, backslash]
      else if c = dquote then [backslash, dquote]
      else if c = CHR 0x08 then [backslash, CHR ''b'']
      else if c = CHR 0x0C then [backslash, CHR ''f'']
      else if c = CHR 0x0A then [backslash, CHR ''n'']
      else if c = CHR 0x0D then [backslash, CHR ''r'']
      else if c = CHR 0x09 then [backslash, CHR ''t'']
      else let n = (of_char c :: nat)
           in if 32 \<le> n \<and> n \<le> 126 then [c]
              else [backslash, CHR ''u'', CHR ''0'', CHR ''0'',
                    hex_digit (n div 16), hex_digit n])"

text \<open>The characters that the encoder leaves as they are.\<close>

definition plain_char :: "char \<Rightarrow> bool" where
  "plain_char c =
     (32 \<le> (of_char c :: nat) \<and> (of_char c :: nat) \<le> 126 \<and> c \<noteq> dquote \<and> c \<noteq> backslash)"

definition json_string :: "string \<Rightarrow> string" where
  "json_string s = [dquote] @ concat (map json_escape_char s) @ [dquote]"

function dec_nat :: "nat \<Rightarrow> string" where
  "dec_nat n = (if n < 10 then [hex_digit n] else dec_nat (n div 10) @ [hex_digit (n mod 10)])"
  by pat_completeness auto
termination
  by (relation "measure id") auto

definition dec_int :: "int \<Rightarrow> string" where
  "dec_int i = (if i < 0 then ''-'' @ dec_nat (nat (- i)) else dec_nat (nat i))"

fun json_dumps :: "jv \<Rightarrow> string" where
  "json_dumps JNull = ''null''"
| "json_dumps (JBool b) = (if b then ''true'' else ''false'')"
| "json_dumps (JNum i) = dec_int i"
| "json_dumps (JStr s) = json_string s"
| "json_dumps (JArr xs) = ''['' @ join '', '' (map json_dumps xs) @ '']''"
| "json_dumps (JObj kvs) =
     ''{'' @ join '', '' (map (\<lambda>kv. json_string (fst kv) @ '': '' @ json_dumps (snd kv)) kvs) @ ''}''"


section \<open>The pipeline: \<^verbatim>\<open>tasks/main.py\<close>\<close>

subsection \<open>What the run does to the outside, and what the outside answers\<close>

text \<open>
  The calls that \<^verbatim>\<open>main\<close> makes to the outside, in the order it makes them. The four
  \<open>Notify\<close> events are the calls of \<^verbatim>\<open>post_build_processing\<close>, \<^verbatim>\<open>post_build_complete\<close>,
  \<^verbatim>\<open>post_build_error\<close> (with the message) and \<^verbatim>\<open>post_build_timeout\<close>; the callback URLs they
  are given are the same in every call and are left out. \<open>TimerStart\<close> and \<open>TimerStop\<close>
  are the entry and the exit of the \<^verbatim>\<open>with Timeout(...)\<close> block, \<open>Run\<close> is
  \<^verbatim>\<open>ctx.run(command)\<close>, \<open>Log\<close> a call of \<^verbatim>\<open>LOGGER\<close>.
\<close>

datatype level = INFO | WARNING | ERROR

datatype event =
    InitLogging "string list"
  | Log level string
  | NotifyProcessing
  | NotifyComplete
  | NotifyError string
  | NotifyTimeout
  | TimerStart nat
  | TimerStop
  | FetchRepo string string string string
  | Run string
  | Publish "string list"

text \<open>The places where \<^verbatim>\<open>main\<close> calls a collaborator that may raise; a task run through
  \<^verbatim>\<open>run_task\<close> is named by its task.\<close>

datatype site =
    PostProcessing
  | Fetch
  | PostFetchError
  | RunTask string
  | PublishSite
  | PostComplete
  | PostTimeout
  | PostExitError
  | PostUnexpectedError

text \<open>
  The collaborators are not part of \<^verbatim>\<open>tasks/main.py\<close>; what they answer is a parameter of the
  model. \<open>raises w s\<close> is the exception with which the call at \<open>s\<close> ends, if it does not
  return: the collaborator's own, or stopit's \<^verbatim>\<open>TimeoutException\<close> delivered while the call is
  in progress. \<open>return_code\<close> is what \<^verbatim>\<open>fetch_repo\<close> returns, \<open>delta_string\<close> the elapsed
  time as \<^verbatim>\<open>delta_to_mins_secs\<close> prints it.
\<close>

record world =
  raises :: "site \<Rightarrow> exn option"
  return_code :: int
  delta_string :: string
  json_loads :: "string \<Rightarrow> exn + jv"
  decrypt :: "jv \<Rightarrow> string \<Rightarrow> exn + string"

type_synonym 'a action = "event list \<Rightarrow> (raised + 'a) \<times> event list"

definition ret :: "'a \<Rightarrow> 'a action" where
  "ret x = (\<lambda>t. (Inr x, t))"

definition raise :: "raised \<Rightarrow> 'a action" where
  "raise r = (\<lambda>t. (Inl r, t))"

definition bindA :: "'a action \<Rightarrow> ('a \<Rightarrow> 'b action) \<Rightarrow> 'b action" where
  "bindA m f = (\<lambda>t. case m t of (Inl r, t') \<Rightarrow> (Inl r, t') | (Inr x, t') \<Rightarrow> f x t')"

definition seqA :: "'a action \<Rightarrow> 'b action \<Rightarrow> 'b action" where
  "seqA m k = bindA m (\<lambda>_. k)"

definition emit :: "event \<Rightarrow> unit action" where
  "emit ev = (\<lambda>t. (Inr (), t @ [ev]))"

text \<open>A call of a collaborator: the call is made, then it returns or raises.\<close>

definition call :: "world \<Rightarrow> site \<Rightarrow> event \<Rightarrow> unit action" where
  "call w s ev =
     (\<lambda>t. (case raises w s of None \<Rightarrow> Inr () | Some e \<Rightarrow> Inl (Exn e), t @ [ev]))"

text \<open>\<^verbatim>\<open>with Timeout(seconds, swallow_exc=False)\<close>: the timer runs from the entry to the exit
  of the block, however the block is left, and nothing is swallowed.\<close>

definition with_Timeout :: "nat \<Rightarrow> 'a action \<Rightarrow> 'a action" where
  "with_Timeout seconds body =
     (\<lambda>t. case body (t @ [TimerStart seconds]) of (r, t') \<Rightarrow> (r, t' @ [TimerStop]))"

text \<open>\<^verbatim>\<open>try: ... except ...\<close> with handlers for (subclasses of) \<^verbatim>\<open>Exception\<close> only.\<close>

definition try_except :: "'a action \<Rightarrow> (exn \<Rightarrow> 'a action) \<Rightarrow> 'a action" where
  "try_except body handler =
     (\<lambda>t. case body t of (Inl (Exn e), t') \<Rightarrow> handler e t' | (r, t') \<Rightarrow> (r, t'))"

definition TIMEOUT_SECONDS :: nat where
  "TIMEOUT_SECONDS = 45 * 60"

definition run_task :: "world \<Rightarrow> string \<Rightarrow> (string \<times> string) list option \<Rightarrow> unit action" where
  "run_task w task_name flags_dict = call w (RunTask task_name) (Run (command task_name flags_dict))"

subsection \<open>Start-up: the environment, the decrypted values, the secret set\<close>

record config =
  AWS_DEFAULT_REGION :: string
  BUCKET :: string
  BASEURL :: string
  BUILD_ID :: string
  CACHE_CONTROL :: string
  BRANCH :: string
  CONFIG :: string
  REPOSITORY :: string
  OWNER :: string
  SITE_PREFIX :: string
  GENERATOR :: string
  AWS_ACCESS_KEY_ID :: string
  AWS_SECRET_ACCESS_KEY :: string
  USER_ENVIRONMENT_VARIABLES :: jv
  USER_ENVIRONMENT_VARIABLE_KEY :: string
  GITHUB_TOKEN :: string
  FEDERALIST_BUILDER_CALLBACK :: string
  STATUS_CALLBACK :: string
  DATABASE_URL :: string

definition read_config :: "(string \<rightharpoonup> string) \<Rightarrow> world \<Rightarrow> exn + config" where
  "read_config env w =
     bindE (environ env ''AWS_DEFAULT_REGION'') (\<lambda>region.
     bindE (environ env ''BUCKET'') (\<lambda>bucket.
     bindE (environ env ''BASEURL'') (\<lambda>baseurl.
     bindE (environ env ''BUILD_ID'') (\<lambda>build_id.
     bindE (environ env ''CACHE_CONTROL'') (\<lambda>cache_control.
     bindE (environ env ''BRANCH'') (\<lambda>branch.
     bindE (environ env ''CONFIG'') (\<lambda>conf.
     bindE (environ env ''REPOSITORY'') (\<lambda>repository.
     bindE (environ env ''OWNER'') (\<lambda>owner.
     bindE (environ env ''SITE_PREFIX'') (\<lambda>site_prefix.
     bindE (environ env ''GENERATOR'') (\<lambda>generator.
     bindE (environ env ''AWS_ACCESS_KEY_ID'') (\<lambda>access_key.
     bindE (environ env ''AWS_SECRET_ACCESS_KEY'') (\<lambda>secret_key.
     bindE (json_loads w (getenv env ''USER_ENVIRONMENT_VARIABLES'' ''[]'')) (\<lambda>uevs.
     bindE (environ env ''USER_ENVIRONMENT_VARIABLE_KEY'') (\<lambda>uev_key.
     bindE (environ env ''FEDERALIST_BUILDER_CALLBACK'') (\<lambda>builder_callback.
       Inr \<lparr> AWS_DEFAULT_REGION = region, BUCKET = bucket, BASEURL = baseurl,
             BUILD_ID = build_id, CACHE_CONTROL = cache_control, BRANCH = branch,
             CONFIG = conf, REPOSITORY = repository, OWNER = owner,
             SITE_PREFIX = site_prefix, GENERATOR = generator,
             AWS_ACCESS_KEY_ID = access_key, AWS_SECRET_ACCESS_KEY = secret_key,
             USER_ENVIRONMENT_VARIABLES = uevs, USER_ENVIRONMENT_VARIABLE_KEY = uev_key,
             GITHUB_TOKEN = getenv env ''GITHUB_TOKEN'' [],
             FEDERALIST_BUILDER_CALLBACK = builder_callback,
             STATUS_CALLBACK = getenv env ''STATUS_CALLBACK'' [],
             DATABASE_URL = getenv env ''DATABASE_URL'' [] \<rparr>))))))))))))))))"

text \<open>\<^verbatim>\<open>for uev in v\<close> and \<^verbatim>\<open>uev[k]\<close> on decoded values.\<close>

fun iterate :: "jv \<Rightarrow> exn + jv list" where
  "iterate (JArr xs) = Inr xs"
| "iterate (JObj kvs) = Inr (map (\<lambda>kv. JStr (fst kv)) kvs)"
| "iterate (JStr s) = Inr (map (\<lambda>c. JStr [c]) s)"
| "iterate v = Inl (TypeError (type_name v @ '' object is not iterable''))"

fun subscript :: "jv \<Rightarrow> string \<Rightarrow> exn + jv" where
  "subscript (JObj kvs) k = getitem kvs k"
| "subscript v k = Inl (TypeError (type_name v @ '' cannot be indexed by str''))"

text \<open>
  \<^verbatim>\<open>
  decrypted_uevs = [{
      'name': uev['name'],
      'value': decrypt(uev['ciphertext'], USER_ENVIRONMENT_VARIABLE_KEY)
  } for uev in USER_ENVIRONMENT_VARIABLES]
  \<close>
  A decrypted variable is the pair of its name and its plaintext.
\<close>

fun decrypt_each :: "world \<Rightarrow> string \<Rightarrow> jv list \<Rightarrow> exn + (jv \<times> string) list" where
  "decrypt_each w key [] = Inr []"
| "decrypt_each w key (uev # uevs) =
     bindE (subscript uev ''name'') (\<lambda>name.
     bindE (subscript uev ''ciphertext'') (\<lambda>ciphertext.
     bindE (decrypt w ciphertext key) (\<lambda>val.
     bindE (decrypt_each w key uevs) (\<lambda>rest.
       Inr ((name, val) # rest)))))"

definition decrypted_uevs :: "world \<Rightarrow> config \<Rightarrow> exn + (jv \<times> string) list" where
  "decrypted_uevs w cfg =
     bindE (iterate (USER_ENVIRONMENT_VARIABLES cfg)) (\<lambda>uevs.
       decrypt_each w (USER_ENVIRONMENT_VARIABLE_KEY cfg) uevs)"

text \<open>The list of dicts that \<^verbatim>\<open>json.dumps(decrypted_uevs)\<close> serialises.\<close>

definition uevs_value :: "(jv \<times> string) list \<Rightarrow> jv" where
  "uevs_value uevs = JArr (map (\<lambda>(name, val). JObj [(''name'', name), (''value'', JStr val)]) uevs)"

text \<open>Everything before the \<^verbatim>\<open>try\<close>: the configuration, the decrypted variables and the
  values handed to \<^verbatim>\<open>init_logging\<close> for redaction.\<close>

definition startup ::
  "(string \<rightharpoonup> string) \<Rightarrow> world \<Rightarrow> exn + config \<times> (jv \<times> string) list \<times> string list" where
  "startup env w =
     bindE (read_config env w) (\<lambda>cfg.
     bindE (decrypted_uevs w cfg) (\<lambda>uevs.
     bindE (private_values env (map snd uevs)) (\<lambda>priv_vals.
       Inr (cfg, uevs, priv_vals))))"


subsection \<open>\<^verbatim>\<open>main\<close>\<close>

definition BUILD_INFO :: "config \<Rightarrow> string" where
  "BUILD_INFO cfg = OWNER cfg @ ''/'' @ REPOSITORY cfg @ ''@id:'' @ BUILD_ID cfg"

definition fetch_failure_msg :: string where
  "fetch_failure_msg =
     ''There was a problem fetching the repository, see the above logs for details.''"

definition unexpected_msg :: "config \<Rightarrow> string" where
  "unexpected_msg cfg =
     ''Unexpected build('' @ BUILD_INFO cfg @ '') error. Please try''
       @ '' again and contact federalist-support'' @ '' if it persists.''"

text \<open>\<^verbatim>\<open>str(err)\<close>; for a \<^verbatim>\<open>KeyError\<close> it is the key in quotes.\<close>

fun str_exn :: "exn \<Rightarrow> string" where
  "str_exn TimeoutException = []"
| "str_exn (UnexpectedExit m) = m"
| "str_exn (KeyError k) = [squote] @ k @ [squote]"
| "str_exn (TypeError m) = m"
| "str_exn (ValueError m) = m"
| "str_exn (OtherException m) = m"

definition build_flags :: "config \<Rightarrow> (jv \<times> string) list \<Rightarrow> (string \<times> string) list" where
  "build_flags cfg uevs =
     [(''--branch'', BRANCH cfg),
      (''--owner'', OWNER cfg),
      (''--repository'', REPOSITORY cfg),
      (''--site-prefix'', SITE_PREFIX cfg),
      (''--base-url'', BASEURL cfg),
      (''--user-env-vars'', json_dumps (uevs_value uevs))]"

text \<open>
  \<^verbatim>\<open>
  return_code = fetch_repo(OWNER, REPOSITORY, BRANCH, GITHUB_TOKEN)
  if return_code != 0:
      msg = 'There was a problem fetching the repository, see the above logs for details.'
      LOGGER.error(msg)
      post_build_error(STATUS_CALLBACK, FEDERALIST_BUILDER_CALLBACK, msg)
      exit(1)
  \<close>
\<close>

definition fetch_stage :: "world \<Rightarrow> config \<Rightarrow> unit action" where
  "fetch_stage w cfg =
     bindA (seqA (call w Fetch (FetchRepo (OWNER cfg) (REPOSITORY cfg) (BRANCH cfg) (GITHUB_TOKEN cfg)))
                 (ret (return_code w)))
       (\<lambda>rc. if rc \<noteq> 0 then
                seqA (emit (Log ERROR fetch_failure_msg))
               (seqA (call w PostFetchError (NotifyError fetch_failure_msg))
                     (raise (SystemExit 1)))
              else ret ())"

text \<open>
  \<^verbatim>\<open>
  run('run-federalist-script', build_flags)
  if GENERATOR == 'jekyll':
      build_flags['--config'] = CONFIG
      run('build-jekyll', build_flags)
  elif GENERATOR == 'hugo':
      run('build-hugo', build_flags)
  elif GENERATOR == 'static':
      run('build-static')
  elif (GENERATOR == 'node.js' or GENERATOR == 'script only'):
      LOGGER.info('build already ran in \'npm run federalist\'')
  else:
      raise ValueError(f'Invalid GENERATOR: {GENERATOR}')
  \<close>
\<close>

definition build_stage :: "world \<Rightarrow> config \<Rightarrow> (string \<times> string) list \<Rightarrow> unit action" where
  "build_stage w cfg flags =
     seqA (run_task w ''run-federalist-script'' (Some flags))
       (if GENERATOR cfg = ''jekyll'' then
          run_task w ''build-jekyll'' (Some (dict_set flags ''--config'' (CONFIG cfg)))
        else if GENERATOR cfg = ''hugo'' then
          run_task w ''build-hugo'' (Some flags)
        else if GENERATOR cfg = ''static'' then
          run_task w ''build-static'' None
        else if GENERATOR cfg = ''node.js'' \<or> GENERATOR cfg = ''script only'' then
          emit (Log INFO (''build already ran in '' @ [squote] @ ''npm run federalist'' @ [squote]))
        else
          raise (Exn (ValueError (''Invalid GENERATOR: '' @ GENERATOR cfg))))"

text \<open>
  \<^verbatim>\<open>
  publish(BASEURL, SITE_PREFIX, BUCKET, CACHE_CONTROL, AWS_DEFAULT_REGION,
          AWS_ACCESS_KEY_ID, AWS_SECRET_ACCESS_KEY)
  delta_string = delta_to_mins_secs(datetime.now() - start_time)
  LOGGER.info(f'Total build time: {delta_string}')
  post_build_complete(STATUS_CALLBACK, FEDERALIST_BUILDER_CALLBACK)
  \<close>
\<close>

definition publish_stage :: "world \<Rightarrow> config \<Rightarrow> unit action" where
  "publish_stage w cfg =
     seqA (call w PublishSite
             (Publish [BASEURL cfg, SITE_PREFIX cfg, BUCKET cfg, CACHE_CONTROL cfg,
                       AWS_DEFAULT_REGION cfg, AWS_ACCESS_KEY_ID cfg, AWS_SECRET_ACCESS_KEY cfg]))
    (seqA (emit (Log INFO (''Total build time: '' @ delta_string w)))
          (call w PostComplete NotifyComplete))"

text \<open>The body of the \<^verbatim>\<open>with Timeout(...)\<close> block.\<close>

definition timed_body :: "world \<Rightarrow> config \<Rightarrow> (jv \<times> string) list \<Rightarrow> unit action" where
  "timed_body w cfg uevs =
     seqA (emit (Log INFO (''Running build for '' @ OWNER cfg @ ''/'' @ REPOSITORY cfg
                            @ ''/'' @ BRANCH cfg)))
    (seqA (fetch_stage w cfg)
    (seqA (build_stage w cfg (build_flags cfg uevs))
          (publish_stage w cfg)))"

text \<open>The three \<^verbatim>\<open>except\<close> clauses, in their order.\<close>

fun handlers :: "world \<Rightarrow> config \<Rightarrow> exn \<Rightarrow> unit action" where
  "handlers w cfg TimeoutException =
     seqA (emit (Log WARNING (''Build('' @ BUILD_INFO cfg @ '') has timed out'')))
          (call w PostTimeout NotifyTimeout)"
| "handlers w cfg (UnexpectedExit err_string) =
     seqA (emit (Log WARNING (''Exception raised during build('' @ BUILD_INFO cfg @ ''):''
                               @ err_string)))
          (call w PostExitError (NotifyError err_string))"
| "handlers w cfg err =
     seqA (emit (Log WARNING (''Unexpected exception raised during build('' @ BUILD_INFO cfg
                               @ ''): '' @ str_exn err)))
          (call w PostUnexpectedError (NotifyError (unexpected_msg cfg)))"

text \<open>
  \<^verbatim>\<open>
  try:
      post_build_processing(STATUS_CALLBACK)
      with Timeout(TIMEOUT_SECONDS, swallow_exc=False):
          ...
  except TimeoutException: ...
  except UnexpectedExit as err: ...
  except Exception as err: ...
  \<close>
\<close>

definition attempt :: "world \<Rightarrow> config \<Rightarrow> (jv \<times> string) list \<Rightarrow> unit action" where
  "attempt w cfg uevs =
     seqA (call w PostProcessing NotifyProcessing)
          (with_Timeout TIMEOUT_SECONDS (timed_body w cfg uevs))"

definition pipeline :: "world \<Rightarrow> config \<Rightarrow> (jv \<times> string) list \<Rightarrow> unit action" where
  "pipeline w cfg uevs = try_except (attempt w cfg uevs) (handlers w cfg)"

text \<open>A run of \<^verbatim>\<open>main\<close> in the process environment \<open>env\<close>: how it ends (\<open>Inr ()\<close> when it
  returns) and the calls it made.\<close>

definition main :: "(string \<rightharpoonup> string) \<Rightarrow> world \<Rightarrow> (raised + unit) \<times> event list" where
  "main env w =
     (case startup env w of
        Inl e \<Rightarrow> (Inl (Exn e), [])
      | Inr (cfg, uevs, priv_vals) \<Rightarrow>
          seqA (emit (InitLogging priv_vals)) (pipeline w cfg uevs) [])"


subsection \<open>Reading a trace\<close>

fun terminal :: "event \<Rightarrow> bool" where
  "terminal NotifyComplete = True"
| "terminal (NotifyError m) = True"
| "terminal NotifyTimeout = True"
| "terminal ev = False"

definition terminals :: "event list \<Rightarrow> event list" where
  "terminals t = filter terminal t"

fun is_stage :: "event \<Rightarrow> bool" where
  "is_stage (FetchRepo a b c d) = True"
| "is_stage (Run c) = True"
| "is_stage (Publish xs) = True"
| "is_stage ev = False"

definition stages :: "event list \<Rightarrow> event list" where
  "stages t = filter is_stage t"

fun commands :: "event list \<Rightarrow> string list" where
  "commands [] = []"
| "commands (Run c # t) = c # commands t"
| "commands (ev # t) = commands t"

text \<open>The calls made while the deadline timer is running: after a \<open>TimerStart\<close> and before
  the next \<open>TimerStop\<close>. The flag says whether the timer is running.\<close>

fun timed :: "bool \<Rightarrow> event list \<Rightarrow> event list" where
  "timed on [] = []"
| "timed on (TimerStart n # t) = timed True t"
| "timed on (TimerStop # t) = timed False t"
| "timed on (ev # t) = (if on then ev # timed on t else timed on t)"

fun timer_on :: "bool \<Rightarrow> event list \<Rightarrow> bool" where
  "timer_on on [] = on"
| "timer_on on (TimerStart n # t) = timer_on True t"
| "timer_on on (TimerStop # t) = timer_on False t"
| "timer_on on (ev # t) = timer_on on t"


section \<open>Sample inputs\<close>

text \<open>Names for the parameters of \<^verbatim>\<open>build\<close>, as the fields of a build request are named.\<close>

definition sample_arguments :: "string list" where
  "sample_arguments =
     [''branch'', ''owner'', ''repository'', ''generator'', ''user_environment_variables'',
      ''status_callback'', ''federalist_builder_callback'']"

definition sample_uevs :: jv where
  "sample_uevs = JArr [JObj [(''name'', JStr ''API_KEY''), (''ciphertext'', JStr ''t3rc3s'')]]"

text \<open>A decoder that knows two documents, and a cipher that reverses the text.\<close>

definition sample_json_loads :: "string \<Rightarrow> exn + jv" where
  "sample_json_loads s =
     (if s = ''[]'' then Inr (JArr [])
      else if s = json_dumps sample_uevs then Inr sample_uevs
      else Inl (ValueError ''Expecting value''))"

definition sample_decrypt :: "jv \<Rightarrow> string \<Rightarrow> exn + string" where
  "sample_decrypt ciphertext key =
     (case ciphertext of
        JStr s \<Rightarrow> if key = ''k3y'' then Inr (rev s) else Inl (OtherException ''bad key'')
      | _ \<Rightarrow> Inl (TypeError ''ciphertext must be str''))"


definition upper_request :: "(string \<times> jv) list" where
  "upper_request =
     [(''BRANCH'', JStr ''main''),
      (''owner'', JStr ''18F''),
      (''repository'', JStr ''site''),
      (''user_environment_variables'', JArr [])]"

definition null_branch_request :: "(string \<times> jv) list" where
  "null_branch_request =
     [(''branch'', JNull),
      (''owner'', JStr ''18F''),
      (''repository'', JStr ''site''),
      (''user_environment_variables'', JArr [])]"

definition sample_env :: "string \<rightharpoonup> string" where
  "sample_env =
     map_of
       [(''AWS_DEFAULT_REGION'', ''us-gov-west-1''),
        (''BUCKET'', ''site-bucket''),
        (''BASEURL'', ''/site/18F/docs''),
        (''BUILD_ID'', ''42''),
        (''CACHE_CONTROL'', ''max-age=60''),
        (''BRANCH'', ''main''),
        (''CONFIG'', ''{}''),
        (''REPOSITORY'', ''docs''),
        (''OWNER'', ''18F''),
        (''SITE_PREFIX'', ''site/18F/docs''),
        (''GENERATOR'', ''jekyll''),
        (''AWS_ACCESS_KEY_ID'', ''AKIDEXAMPLE''),
        (''AWS_SECRET_ACCESS_KEY'', ''wJalrEXAMPLEKEY''),
        (''USER_ENVIRONMENT_VARIABLES'', json_dumps sample_uevs),
        (''USER_ENVIRONMENT_VARIABLE_KEY'', ''k3y''),
        (''GITHUB_TOKEN'', ''ghp_token''),
        (''FEDERALIST_BUILDER_CALLBACK'', ''https://builder.example/cb''),
        (''STATUS_CALLBACK'', ''https://status.example/cb'')]"

definition sample_decrypted :: "(jv \<times> string) list" where
  "sample_decrypted = [(JStr ''API_KEY'', ''s3cr3t'')]"

definition sample_private :: "string list" where
  "sample_private = [''AKIDEXAMPLE'', ''wJalrEXAMPLEKEY'', ''ghp_token'', ''s3cr3t'']"

text \<open>The environment of a build without a token, one with a generator that does not exist,
  and one with the wrong key for the user's variables.\<close>

definition bogus_env :: "string \<rightharpoonup> string" where
  "bogus_env = sample_env(''GENERATOR'' \<mapsto> ''bogus'')"

definition wrong_key_env :: "string \<rightharpoonup> string" where
  "wrong_key_env = sample_env(''USER_ENVIRONMENT_VARIABLE_KEY'' \<mapsto> ''wr0ng'')"

definition anonymous_env :: "string \<rightharpoonup> string" where
  "anonymous_env = sample_env(''GITHUB_TOKEN'' := None)"

text \<open>The world in which every call returns, and variations of it.\<close>

definition calm :: world where
  "calm = \<lparr> raises = (\<lambda>s. None), return_code = 0, delta_string = ''3m 20s'',
            json_loads = sample_json_loads, decrypt = sample_decrypt \<rparr>"


definition processing_fails :: world where
  "processing_fails =
     calm \<lparr> raises := (\<lambda>s. if s = PostProcessing then Some (OtherException ''connection refused'')
                            else None) \<rparr>"

definition deadline_during_complete :: world where
  "deadline_during_complete =
     calm \<lparr> raises := (\<lambda>s. if s = PostComplete then Some TimeoutException else None) \<rparr>"


definition sample_config :: config where
  "sample_config =
     \<lparr> AWS_DEFAULT_REGION = ''us-gov-west-1'', BUCKET = ''site-bucket'',
       BASEURL = ''/site/18F/docs'', BUILD_ID = ''42'', CACHE_CONTROL = ''max-age=60'',
       BRANCH = ''main'', CONFIG = ''{}'', REPOSITORY = ''docs'', OWNER = ''18F'',
       SITE_PREFIX = ''site/18F/docs'', GENERATOR = ''jekyll'',
       AWS_ACCESS_KEY_ID = ''AKIDEXAMPLE'', AWS_SECRET_ACCESS_KEY = ''wJalrEXAMPLEKEY'',
       USER_ENVIRONMENT_VARIABLES = sample_uevs, USER_ENVIRONMENT_VARIABLE_KEY = ''k3y'',
       GITHUB_TOKEN = ''ghp_token'',
       FEDERALIST_BUILDER_CALLBACK = ''https://builder.example/cb'',
       STATUS_CALLBACK = ''https://status.example/cb'', DATABASE_URL = [] \<rparr>"


section \<open>Quoting and the shell\<close>

text \<open>
  What the shell of the previous section makes of the output of \<^verbatim>\<open>shlex.quote\<close>. The two
  meet in one fact: every character that \<^verbatim>\<open>shlex.quote\<close> leaves without quotes is a
  character that the shell takes literally.
\<close>

lemma quote_chars:
  "\<not> sh_blank squote" "\<not> sh_operator squote" "\<not> sh_unread squote" "squote \<noteq> backslash"
  "\<not> sh_blank dquote" "\<not> sh_operator dquote" "\<not> sh_unread dquote" "dquote \<noteq> backslash"
  "squote \<noteq> dquote" "dquote \<noteq> squote"
  "squote \<noteq> CHR ''$''" "squote \<noteq> backquote"
  by (simp_all add: squote_def dquote_def backslash_def backquote_def newline_def
        sh_blank_def sh_operator_def sh_unread_def)

lemma safe_char_literal: "safe_char c \<Longrightarrow> sh_literal c"
  by (auto simp: safe_char_def word_char_def Let_def sh_literal_def sh_blank_def sh_operator_def
        sh_unread_def squote_def dquote_def backslash_def backquote_def newline_def)

lemma sh_step_literal:
  "sh_literal c \<Longrightarrow> sh_step (Unquoted, cur, ws) c = Some (Unquoted, add_bare cur c, ws)"
  by (simp add: sh_literal_def)

lemma add_bare_text: "\<exists>k. add_bare cur c = Some (word_so_far cur @ [c], k)"
  by (cases cur) auto

lemma quoted_text: "\<exists>k. quoted cur = Some (word_so_far cur, k) \<and> k \<noteq> Bare"
proof (cases cur)
  case None
  then show ?thesis by simp
next
  case (Some p)
  obtain w k where "p = (w, k)" by (cases p)
  with Some show ?thesis by (cases k) simp_all
qed

lemma quoted_idem: "k \<noteq> Bare \<Longrightarrow> quoted (Some (w, k)) = Some (w, k)"
  by (cases k) simp_all

lemma sh_lex_append:
  "sh_lex st (a @ b) = (case sh_lex st a of None \<Rightarrow> None | Some st' \<Rightarrow> sh_lex st' b)"
  by (induction a arbitrary: st) (auto split: option.splits)

lemma sh_lex_literal:
  assumes "\<forall>c \<in> set s. sh_literal c" and "s \<noteq> []"
  shows "\<exists>k. sh_lex (Unquoted, cur, ws) s = Some (Unquoted, Some (word_so_far cur @ s, k), ws)"
  using assms
proof (induction s arbitrary: cur)
  case Nil
  then show ?case by simp
next
  case (Cons c s)
  from Cons.prems have c: "sh_literal c" by simp
  obtain k where k: "add_bare cur c = Some (word_so_far cur @ [c], k)"
    using add_bare_text by blast
  show ?case
  proof (cases "s = []")
    case True
    with k show ?thesis by (simp del: sh_step.simps add: sh_step_literal [OF c])
  next
    case False
    from Cons.prems have "\<forall>c \<in> set s. sh_literal c" by simp
    from Cons.IH [OF this False, of "Some (word_so_far cur @ [c], k)"]
    show ?thesis using k by (simp del: sh_step.simps add: sh_step_literal [OF c])
  qed
qed

lemma sh_lex_single:
  "k \<noteq> Bare \<Longrightarrow>
   sh_lex (InSingle, Some (w, k), ws) (replace_char squote [squote, dquote, squote, dquote, squote] s)
     = Some (InSingle, Some (w @ s, k), ws)"
proof (induction s arbitrary: w)
  case Nil
  then show ?case by (simp add: replace_char_def)
next
  case (Cons c s)
  from Cons.IH [OF Cons.prems, of "w @ [c]"] Cons.prems show ?case
    by (auto simp: replace_char_def quote_chars quoted_idem)
qed

lemma sh_lex_quote:
  "\<exists>k. sh_lex (Unquoted, cur, ws) (shlex_quote s)
         = Some (Unquoted, Some (word_so_far cur @ s, k), ws)"
proof -
  obtain q where q: "quoted cur = Some (word_so_far cur, q)" "q \<noteq> Bare"
    using quoted_text by blast
  consider "s = []" | "s \<noteq> []" "find_unsafe s = None" | "s \<noteq> []" "find_unsafe s \<noteq> None" by blast
  then show ?thesis
  proof cases
    case 1
    then show ?thesis using q by (simp add: shlex_quote_def quote_chars)
  next
    case 2
    then have "\<forall>c \<in> set s. safe_char c" by (auto simp: find_unsafe_def find_None_iff)
    then have "\<forall>c \<in> set s. sh_literal c" by (simp add: safe_char_literal)
    from sh_lex_literal [OF this 2(1)] 2 show ?thesis by (simp add: shlex_quote_def)
  next
    case 3
    then have "shlex_quote s
        = [squote] @ replace_char squote [squote, dquote, squote, dquote, squote] s @ [squote]"
      by (auto simp: shlex_quote_def)
    then show ?thesis using q
      by (simp add: sh_lex_append sh_lex_single quote_chars)
  qed
qed

lemma argument_position_snoc: "argument_position (ws @ [Word c])"
  by (induction ws rule: argument_position.induct) simp_all

lemma blank_space: "sh_blank CHR '' ''"
  by (simp add: sh_blank_def)

text \<open>The quoted value where an argument is expected.\<close>

lemma sh_lex_quote_glued:
  assumes "sh_lex (Unquoted, None, []) pre = Some (Unquoted, cur, ws)"
  shows "\<exists>k. sh_lex (Unquoted, None, []) (pre @ shlex_quote s @ post)
           = sh_lex (Unquoted, Some (word_so_far cur @ s, k), ws) post"
proof -
  obtain k where "sh_lex (Unquoted, cur, ws) (shlex_quote s)
         = Some (Unquoted, Some (word_so_far cur @ s, k), ws)"
    using sh_lex_quote by blast
  with assms have "sh_lex (Unquoted, None, []) (pre @ shlex_quote s @ post)
           = sh_lex (Unquoted, Some (word_so_far cur @ s, k), ws) post"
    by (simp add: sh_lex_append)
  then show ?thesis by blast
qed


text \<open>The command line of \<^verbatim>\<open>run_task\<close>.\<close>

lemma literal_equals: "sh_literal CHR ''=''"
  by (simp add: sh_literal_def sh_blank_def sh_operator_def sh_unread_def squote_def dquote_def
        backslash_def backquote_def newline_def)

lemma sh_lex_flag:
  assumes "\<forall>c \<in> set f. sh_literal c"
  shows "\<exists>k. sh_lex (Unquoted, None, ws) (f @ ''='' @ shlex_quote v @ rest)
           = sh_lex (Unquoted, Some (f @ ''='' @ v, k), ws) rest"
proof -
  from assms have "\<forall>c \<in> set (f @ ''=''). sh_literal c" by (simp add: literal_equals)
  from sh_lex_literal [OF this, of None ws]
  obtain k where "sh_lex (Unquoted, None, ws) (f @ ''='') = Some (Unquoted, Some (f @ ''='', k), ws)"
    by auto
  moreover obtain k' where "sh_lex (Unquoted, Some (f @ ''='', k), ws) (shlex_quote v)
      = Some (Unquoted, Some (word_so_far (Some (f @ ''='', k)) @ v, k'), ws)"
    using sh_lex_quote by blast
  ultimately have "sh_lex (Unquoted, None, ws) ((f @ ''='') @ shlex_quote v @ rest)
      = sh_lex (Unquoted, Some ((f @ ''='') @ v, k'), ws) rest"
    by (simp only: sh_lex_append option.case word_so_far.simps)
  then show ?thesis by auto
qed

lemma sh_lex_flags:
  assumes "\<forall>(f, v) \<in> set d. \<forall>c \<in> set f. sh_literal c" and "argument_position ws"
  shows "sh_finish (sh_lex (Unquoted, None, ws) (join '' '' (flag_args (Some d))))
           = Some (ws @ map (\<lambda>(f, v). Word (f @ ''='' @ v)) d)"
  using assms
proof (induction d arbitrary: ws rule: induct_list012)
  case 1
  then show ?case by (simp add: flag_args_def)
next
  case (2 x)
  obtain f v where x: "x = (f, v)" by (cases x)
  with 2 have "\<forall>c \<in> set f. sh_literal c" by simp
  from sh_lex_flag [OF this, of ws v "[]"] x 2(2) show ?case
    by (auto simp: flag_args_def)
next
  case (3 x y zs)
  obtain f v where x: "x = (f, v)" by (cases x)
  with 3 have "\<forall>c \<in> set f. sh_literal c" by simp
  from sh_lex_flag [OF this, of ws v "'' '' @ join '' '' (flag_args (Some (y # zs)))"]
  have "sh_lex (Unquoted, None, ws) (join '' '' (flag_args (Some (x # y # zs))))
      = sh_lex (Unquoted, None, ws @ [Word (f @ ''='' @ v)]) (join '' '' (flag_args (Some (y # zs))))"
    using x 3(4) by (auto simp: flag_args_def blank_space)
  moreover from 3 have "sh_finish (sh_lex (Unquoted, None, ws @ [Word (f @ ''='' @ v)]) (join '' '' (flag_args (Some (y # zs)))))
     = Some ((ws @ [Word (f @ ''='' @ v)]) @ map (\<lambda>(f, v). Word (f @ ''='' @ v)) (y # zs))"
    by (simp add: argument_position_snoc)
  ultimately show ?case using x by simp
qed

lemma sh_lex_word_blank:
  assumes "w \<noteq> []" "\<forall>c \<in> set w. sh_literal c" "argument_position ws"
  shows "sh_lex (Unquoted, None, ws) (w @ '' '' @ rest) = sh_lex (Unquoted, None, ws @ [Word w]) rest"
proof -
  from sh_lex_literal [OF assms(2,1), of None ws]
  obtain k where "sh_lex (Unquoted, None, ws) w = Some (Unquoted, Some (w, k), ws)" by auto
  with assms(3) show ?thesis by (simp add: sh_lex_append blank_space)
qed

lemma sh_lex_inv:
  "sh_lex (Unquoted, None, []) (''inv '' @ rest) = sh_lex (Unquoted, None, [Word ''inv'']) rest"
  by (simp add: sh_blank_def sh_operator_def sh_unread_def squote_def dquote_def backslash_def
        newline_def backquote_def reserved_def)

lemma sh_lex_command:
  assumes "task \<noteq> []" "\<forall>c \<in> set task. sh_literal c"
  shows "sh_lex (Unquoted, None, []) (command task flags)
           = sh_lex (Unquoted, None, [Word ''inv'', Word task]) (join '' '' (flag_args flags))"
proof -
  have "command task flags = ''inv '' @ (task @ '' '' @ join '' '' (flag_args flags))"
    by (simp add: command_def)
  then have "sh_lex (Unquoted, None, []) (command task flags)
      = sh_lex (Unquoted, None, [Word ''inv'']) (task @ '' '' @ join '' '' (flag_args flags))"
    by (simp only: sh_lex_inv)
  also have "\<dots> = sh_lex (Unquoted, None, [Word ''inv''] @ [Word task]) (join '' '' (flag_args flags))"
    by (rule sh_lex_word_blank [OF assms]) simp
  finally show ?thesis by simp
qed

lemma sh_words_command:
  assumes "task \<noteq> []" "\<forall>c \<in> set task. sh_literal c"
    and "\<forall>(f, v) \<in> set d. \<forall>c \<in> set f. sh_literal c"
  shows "sh_words (command task (Some d))
           = Some (Word ''inv'' # Word task # map (\<lambda>(f, v). Word (f @ ''='' @ v)) d)"
  using sh_lex_flags [OF assms(3), of "[Word ''inv'', Word task]"]
  by (simp add: sh_words_def sh_lex_command [OF assms(1,2)])


section \<open>Properties of the sanitizer\<close>

lemma map_of_dict_set: "map_of (dict_set d k v) = (map_of d)(k \<mapsto> v)"
  by (induction d k v rule: dict_set.induct) auto

lemma keys_dict_set: "fst ` set (dict_set d k v) = insert k (fst ` set d)"
  by (induction d k v rule: dict_set.induct) auto

lemma keys_foldl_dict_set:
  "fst ` set (foldl (\<lambda>kwargs (k, v). dict_set kwargs (lower k) v) acc xs)
     = fst ` set acc \<union> lower ` fst ` set xs"
proof (induction xs arbitrary: acc)
  case Nil
  show ?case by simp
next
  case (Cons x xs)
  obtain k v where x: "x = (k, v)" by (cases x)
  have "fst ` set (foldl (\<lambda>kwargs (k, v). dict_set kwargs (lower k) v) acc (x # xs))
      = fst ` set (dict_set acc (lower k) v) \<union> lower ` fst ` set xs"
    using Cons [of "dict_set acc (lower k) v"] x by simp
  also have "\<dots> = fst ` set acc \<union> lower ` fst ` set (x # xs)"
    using x by (simp add: keys_dict_set)
  finally show ?case .
qed

lemma keys_build_kwargs:
  "fst ` set (build_kwargs args params)
     = lower ` {k. \<exists>v. (k, v) \<in> set params \<and> v \<noteq> JNull \<and> k \<in> set args}"
  by (force simp: build_kwargs_def keys_foldl_dict_set)

lemma getitem_missing: "k \<notin> fst ` set d \<Longrightarrow> getitem d k = Inl (KeyError k)"
  by (simp add: getitem_def map_of_eq_None_iff [symmetric])


lemma quote_kwarg_Inr:
  "quote_kwarg n kw = Inr kw' \<Longrightarrow>
   \<exists>v q. map_of kw n = Some v \<and> quote_value v = Inr q \<and> map_of kw' = (map_of kw)(n \<mapsto> JStr q)"
  by (auto simp: quote_kwarg_def bindE_def getitem_def map_of_dict_set split: sum.splits option.splits)

lemma decode_uevs_Inr:
  "decode_uevs jl kw = Inr kw' \<Longrightarrow> k \<noteq> ''user_environment_variables'' \<Longrightarrow>
   map_of kw' k = map_of kw k"
  by (auto simp: decode_uevs_def bindE_def getitem_def map_of_dict_set
           split: sum.splits option.splits jv.splits if_splits)

lemma decode_uevs_missing:
  "map_of kw ''user_environment_variables'' = None \<Longrightarrow>
   decode_uevs jl kw = Inl (KeyError ''user_environment_variables'')"
  by (simp add: decode_uevs_def bindE_def getitem_def)

lemma quote_kwarg_missing:
  "map_of kw n = None \<Longrightarrow> quote_kwarg n kw = Inl (KeyError n)"
  by (simp add: quote_kwarg_def bindE_def getitem_def)

lemma quote_kwarg_other:
  "quote_kwarg n kw = Inr kw' \<Longrightarrow> k \<noteq> n \<Longrightarrow> map_of kw' k = map_of kw k"
  by (auto dest: quote_kwarg_Inr)



lemma missing_kwarg:
  assumes low: "\<forall>a \<in> set args. lower a = a"
    and miss: "\<forall>v. (name, v) \<in> set params \<longrightarrow> v = JNull"
  shows "map_of (build_kwargs args params) name = None"
proof -
  have "name \<notin> fst ` set (build_kwargs args params)"
  proof
    assume "name \<in> fst ` set (build_kwargs args params)"
    then obtain k v where "(k, v) \<in> set params" "v \<noteq> JNull" "k \<in> set args" "name = lower k"
      by (auto simp: keys_build_kwargs)
    with low miss show False by auto
  qed
  then show ?thesis by (simp add: map_of_eq_None_iff [symmetric])
qed

lemma validated_missing:
  assumes m: "map_of (build_kwargs args params) name = None"
    and n: "name \<in> {''user_environment_variables'', ''branch'', ''owner'', ''repository''}"
  shows "(\<exists>e. validated_kwargs jl args params = Inl e)"
    and "name = ''user_environment_variables'' \<Longrightarrow> validated_kwargs jl args params = Inl (KeyError name)"
    and "name = ''branch'' \<Longrightarrow> decode_uevs jl (build_kwargs args params) = Inr k1 \<Longrightarrow>
           validated_kwargs jl args params = Inl (KeyError name)"
    and "name = ''owner'' \<Longrightarrow> decode_uevs jl (build_kwargs args params) = Inr k1 \<Longrightarrow>
           quote_kwarg ''branch'' k1 = Inr k2 \<Longrightarrow>
           validated_kwargs jl args params = Inl (KeyError name)"
    and "name = ''repository'' \<Longrightarrow> decode_uevs jl (build_kwargs args params) = Inr k1 \<Longrightarrow>
           quote_kwarg ''branch'' k1 = Inr k2 \<Longrightarrow> quote_kwarg ''owner'' k2 = Inr k3 \<Longrightarrow>
           validated_kwargs jl args params = Inl (KeyError name)"
proof -
  show u: "name = ''user_environment_variables'' \<Longrightarrow> validated_kwargs jl args params = Inl (KeyError name)"
    using m by (simp add: validated_kwargs_def decode_uevs_missing bindE_def)
  show b: "name = ''branch'' \<Longrightarrow> decode_uevs jl (build_kwargs args params) = Inr k1 \<Longrightarrow>
           validated_kwargs jl args params = Inl (KeyError name)" for k1
    using m decode_uevs_Inr [of jl "build_kwargs args params" k1 name]
    by (simp add: validated_kwargs_def bindE_def quote_kwarg_missing)
  show o: "name = ''owner'' \<Longrightarrow> decode_uevs jl (build_kwargs args params) = Inr k1 \<Longrightarrow>
           quote_kwarg ''branch'' k1 = Inr k2 \<Longrightarrow>
           validated_kwargs jl args params = Inl (KeyError name)" for k1 k2
    using m decode_uevs_Inr [of jl "build_kwargs args params" k1 name]
      quote_kwarg_other [of "''branch''" k1 k2 name]
    by (simp add: validated_kwargs_def bindE_def quote_kwarg_missing)
  show r: "name = ''repository'' \<Longrightarrow> decode_uevs jl (build_kwargs args params) = Inr k1 \<Longrightarrow>
           quote_kwarg ''branch'' k1 = Inr k2 \<Longrightarrow> quote_kwarg ''owner'' k2 = Inr k3 \<Longrightarrow>
           validated_kwargs jl args params = Inl (KeyError name)" for k1 k2 k3
    using m decode_uevs_Inr [of jl "build_kwargs args params" k1 name]
      quote_kwarg_other [of "''branch''" k1 k2 name] quote_kwarg_other [of "''owner''" k2 k3 name]
    by (simp add: validated_kwargs_def bindE_def quote_kwarg_missing)
  show "\<exists>e. validated_kwargs jl args params = Inl e"
  proof (cases "decode_uevs jl (build_kwargs args params)")
    case (Inl e)
    then show ?thesis by (simp add: validated_kwargs_def bindE_def)
  next
    case d: (Inr k1)
    show ?thesis
    proof (cases "quote_kwarg ''branch'' k1")
      case (Inl e)
      with d show ?thesis by (simp add: validated_kwargs_def bindE_def)
    next
      case bq: (Inr k2)
      show ?thesis
      proof (cases "quote_kwarg ''owner'' k2")
        case (Inl e)
        with d bq show ?thesis by (simp add: validated_kwargs_def bindE_def)
      next
        case oq: (Inr k3)
        from n consider "name = ''user_environment_variables''" | "name = ''branch''" 
          | "name = ''owner''" | "name = ''repository''" by auto
        then show ?thesis
        proof cases
          case 1 with u show ?thesis by blast
        next
          case 2 with b d show ?thesis by blast
        next
          case 3 with o d bq show ?thesis by blast
        next
          case 4 with r d bq oq show ?thesis by blast
        qed
      qed
    qed
  qed
qed


section \<open>Facts about the sample inputs\<close>

lemma lower_sample: "\<forall>a \<in> set sample_arguments. lower a = a"
  by (simp add: sample_arguments_def lower_def lower_char_def)


lemma safe_sample: "safe_char CHR ''f'' \<and> safe_char CHR ''i'' \<and> safe_char CHR ''x'' \<and> \<not> safe_char CHR '';''"
  by (simp add: safe_char_def word_char_def)



lemma json_sample:
  "json_dumps sample_uevs = [CHR ''['', CHR ''{'', dquote] @ ''name'' @ [dquote] @ '': '' @ [dquote]
     @ ''API_KEY'' @ [dquote] @ '', '' @ [dquote] @ ''ciphertext'' @ [dquote] @ '': '' @ [dquote]
     @ ''t3rc3s'' @ [dquote] @ ''}]''"
  by (simp add: sample_uevs_def json_string_def json_escape_char_def dquote_def backslash_def)

lemma read_config_sample:
  "json_loads w = sample_json_loads \<Longrightarrow> read_config sample_env w = Inr sample_config"
  by (simp add: read_config_def sample_env_def bindE_def environ_def getenv_def
        sample_json_loads_def sample_config_def json_sample dquote_def)

lemma decrypted_sample:
  "decrypt w = sample_decrypt \<Longrightarrow> decrypted_uevs w sample_config = Inr sample_decrypted"
  by (simp add: decrypted_uevs_def sample_config_def sample_uevs_def bindE_def getitem_def
        sample_decrypt_def sample_decrypted_def)

lemma private_sample: "private_values sample_env [''s3cr3t''] = Inr sample_private"
  by (simp add: private_values_def sample_env_def bindE_def environ_def getenv_def sample_private_def)

lemma startup_sample:
  "json_loads w = sample_json_loads \<Longrightarrow> decrypt w = sample_decrypt \<Longrightarrow>
   startup sample_env w = Inr (sample_config, sample_decrypted, sample_private)"
  using private_sample
  by (simp add: startup_def read_config_sample decrypted_sample bindE_def sample_decrypted_def)

lemma startup_calm: "startup sample_env calm = Inr (sample_config, sample_decrypted, sample_private)"
  by (rule startup_sample) (simp_all add: calm_def)


lemma startup_processing_fails:
  "startup sample_env processing_fails = Inr (sample_config, sample_decrypted, sample_private)"
  by (rule startup_sample) (simp_all add: processing_fails_def calm_def)

lemma startup_deadline:
  "startup sample_env deadline_during_complete = Inr (sample_config, sample_decrypted, sample_private)"
  by (rule startup_sample) (simp_all add: deadline_during_complete_def calm_def)


lemma read_config_bogus:
  "read_config bogus_env calm = Inr (sample_config \<lparr> GENERATOR := ''bogus'' \<rparr>)"
  by (simp add: read_config_def bogus_env_def sample_env_def bindE_def environ_def getenv_def
        sample_json_loads_def sample_config_def json_sample dquote_def calm_def)

lemma startup_bogus:
  "startup bogus_env calm = Inr (sample_config \<lparr> GENERATOR := ''bogus'' \<rparr>, sample_decrypted, sample_private)"
proof -
  have "private_values bogus_env [''s3cr3t''] = Inr sample_private"
    by (simp add: private_values_def bogus_env_def sample_env_def bindE_def environ_def getenv_def sample_private_def)
  moreover have "decrypted_uevs calm (sample_config \<lparr> GENERATOR := ''bogus'' \<rparr>) = Inr sample_decrypted"
    by (simp add: decrypted_uevs_def sample_config_def sample_uevs_def bindE_def getitem_def
        sample_decrypt_def sample_decrypted_def calm_def)
  ultimately show ?thesis
    by (simp add: startup_def read_config_bogus bindE_def sample_decrypted_def)
qed

lemma startup_wrong_key:
  "startup wrong_key_env calm = Inl (OtherException ''bad key'')"
proof -
  have "read_config wrong_key_env calm = Inr (sample_config \<lparr> USER_ENVIRONMENT_VARIABLE_KEY := ''wr0ng'' \<rparr>)"
    by (simp add: read_config_def wrong_key_env_def sample_env_def bindE_def environ_def getenv_def
        sample_json_loads_def sample_config_def json_sample dquote_def calm_def)
  moreover have "decrypted_uevs calm (sample_config \<lparr> USER_ENVIRONMENT_VARIABLE_KEY := ''wr0ng'' \<rparr>)
      = Inl (OtherException ''bad key'')"
    by (simp add: decrypted_uevs_def sample_config_def sample_uevs_def bindE_def getitem_def
        sample_decrypt_def calm_def)
  ultimately show ?thesis by (simp add: startup_def bindE_def)
qed

lemma sample_script_command:
  "command ''run-federalist-script'' (Some (build_flags sample_config sample_decrypted)) =
     ''inv run-federalist-script --branch=main --owner=18F --repository=docs''
     @ '' --site-prefix=site/18F/docs --base-url=/site/18F/docs --user-env-vars=''
     @ [squote, CHR ''['', CHR ''{'', dquote] @ ''name'' @ [dquote] @ '': '' @ [dquote]
     @ ''API_KEY'' @ [dquote] @ '', '' @ [dquote] @ ''value'' @ [dquote] @ '': '' @ [dquote]
     @ ''s3cr3t'' @ [dquote] @ ''}]'' @ [squote]"
  by (simp add: command_def flag_args_def build_flags_def sample_config_def sample_decrypted_def
       uevs_value_def json_string_def json_escape_char_def dquote_def backslash_def squote_def
       shlex_quote_def find_unsafe_def safe_char_def word_char_def replace_char_def)


section \<open>Properties of the pipeline\<close>

lemmas action_defs = call_def emit_def seqA_def bindA_def ret_def raise_def with_Timeout_def
lemmas run_defs = attempt_def timed_body_def fetch_stage_def build_stage_def publish_stage_def run_task_def

lemma main_started:
  "startup env w = Inr (cfg, uevs, priv) \<Longrightarrow>
   main env w = try_except (attempt w cfg uevs) (handlers w cfg) [InitLogging priv]"
  by (simp add: main_def pipeline_def emit_def seqA_def bindA_def)

lemma main_not_started: "startup env w = Inl e \<Longrightarrow> main env w = (Inl (Exn e), [])"
  by (simp add: main_def)

lemma handlers_appends:
  "\<exists>r l m. handlers w cfg e t =
     (r, t @ [Log l m,
              case e of TimeoutException \<Rightarrow> NotifyTimeout
                      | UnexpectedExit s \<Rightarrow> NotifyError s
                      | _ \<Rightarrow> NotifyError (unexpected_msg cfg)])"
  by (cases e) (simp_all add: action_defs)

lemma handlers_terminal:
  "\<exists>r l m ev. handlers w cfg e t = (r, t @ [Log l m, ev]) \<and> terminal ev"
  by (cases e) (simp_all add: action_defs)


lemma terminal_not_stage: "terminal ev \<Longrightarrow> \<not> is_stage ev"
  by (cases ev) simp_all

lemma try_except_returned: "body t = (Inr x, t') \<Longrightarrow> try_except body handler t = (Inr x, t')"
  by (simp add: try_except_def)

lemma try_except_exit:
  "body t = (Inl (SystemExit n), t') \<Longrightarrow> try_except body handler t = (Inl (SystemExit n), t')"
  by (simp add: try_except_def)

lemma try_except_caught:
  "body t = (Inl (Exn e), t') \<Longrightarrow> try_except body handler t = handler e t'"
  by (simp add: try_except_def)



lemma commands_append: "commands (a @ b) = commands a @ commands b"
  by (induction a rule: commands.induct) simp_all

lemma stages_append: "stages (a @ b) = stages a @ stages b"
  by (simp add: stages_def)

lemma terminals_append: "terminals (a @ b) = terminals a @ terminals b"
  by (simp add: terminals_def)

lemma terminal_not_Run: "terminal ev \<Longrightarrow> commands [ev] = []"
  by (cases ev) simp_all

lemma commands_main:
  assumes "startup env w = Inr (cfg, uevs, priv)"
  shows "commands (snd (main env w)) = commands (snd (attempt w cfg uevs [InitLogging priv]))"
proof -
  obtain r t' where a: "attempt w cfg uevs [InitLogging priv] = (r, t')" by fastforce
  show ?thesis
  proof (cases r)
    case (Inr u)
    with a show ?thesis by (simp add: main_started [OF assms] try_except_def)
  next
    case (Inl x)
    show ?thesis
    proof (cases x)
      case (SystemExit n)
      with a Inl show ?thesis by (simp add: main_started [OF assms] try_except_def)
    next
      case (Exn e)
      obtain r' l m ev where "handlers w cfg e t' = (r', t' @ [Log l m, ev])" "terminal ev"
        using handlers_terminal by blast
      with a Inl Exn terminal_not_Run [of ev] show ?thesis
        by (simp add: main_started [OF assms] try_except_def commands_append)
    qed
  qed
qed

lemma jekyll_flags:
  "dict_set (build_flags cfg uevs) ''--config'' c = build_flags cfg uevs @ [(''--config'', c)]"
  by (simp add: build_flags_def)

lemma attempt_commands:
  assumes "raises w PostProcessing = None" "raises w Fetch = None" "return_code w = 0"
  shows "commands (snd (attempt w cfg uevs [InitLogging priv])) =
     command ''run-federalist-script'' (Some (build_flags cfg uevs)) #
       (if raises w (RunTask ''run-federalist-script'') \<noteq> None then []
        else if GENERATOR cfg = ''jekyll'' then
          [command ''build-jekyll'' (Some (build_flags cfg uevs @ [(''--config'', CONFIG cfg)]))]
        else if GENERATOR cfg = ''hugo'' then [command ''build-hugo'' (Some (build_flags cfg uevs))]
        else if GENERATOR cfg = ''static'' then [command ''build-static'' None]
        else [])"
  using assms
  by (simp add: run_defs action_defs jekyll_flags split: option.splits)

lemma attempt_stages_script_only:
  assumes "raises w PostProcessing = None" "raises w Fetch = None" "return_code w = 0"
    "raises w (RunTask ''run-federalist-script'') = None"
    "GENERATOR cfg = ''node.js'' \<or> GENERATOR cfg = ''script only''"
  shows "stages (snd (attempt w cfg uevs [InitLogging priv])) =
     [FetchRepo (OWNER cfg) (REPOSITORY cfg) (BRANCH cfg) (GITHUB_TOKEN cfg),
      Run (command ''run-federalist-script'' (Some (build_flags cfg uevs))),
      Publish [BASEURL cfg, SITE_PREFIX cfg, BUCKET cfg, CACHE_CONTROL cfg,
               AWS_DEFAULT_REGION cfg, AWS_ACCESS_KEY_ID cfg, AWS_SECRET_ACCESS_KEY cfg]]"
  using assms
  by (auto simp add: run_defs action_defs stages_def split: option.splits)

lemma stages_main:
  assumes "startup env w = Inr (cfg, uevs, priv)"
  shows "stages (snd (main env w)) = stages (snd (attempt w cfg uevs [InitLogging priv]))"
proof -
  obtain r t' where a: "attempt w cfg uevs [InitLogging priv] = (r, t')" by fastforce
  show ?thesis
  proof (cases r)
    case (Inr u)
    with a show ?thesis by (simp add: main_started [OF assms] try_except_def)
  next
    case (Inl x)
    show ?thesis
    proof (cases x)
      case (SystemExit n)
      with a Inl show ?thesis by (simp add: main_started [OF assms] try_except_def)
    next
      case (Exn e)
      obtain r' l m ev where "handlers w cfg e t' = (r', t' @ [Log l m, ev])" "terminal ev"
        using handlers_terminal by blast
      with a Inl Exn terminal_not_stage [of ev] show ?thesis
        by (simp add: main_started [OF assms] try_except_def stages_def)
    qed
  qed
qed

lemma attempt_invalid_generator:
  assumes "raises w PostProcessing = None" "raises w Fetch = None" "return_code w = 0"
    "raises w (RunTask ''run-federalist-script'') = None"
    "GENERATOR cfg \<notin> {''jekyll'', ''hugo'', ''static'', ''node.js'', ''script only''}"
  shows "attempt w cfg uevs t =
     (Inl (Exn (ValueError (''Invalid GENERATOR: '' @ GENERATOR cfg))),
      t @ [NotifyProcessing, TimerStart (45 * 60),
        Log INFO (''Running build for '' @ OWNER cfg @ ''/'' @ REPOSITORY cfg @ ''/'' @ BRANCH cfg),
        FetchRepo (OWNER cfg) (REPOSITORY cfg) (BRANCH cfg) (GITHUB_TOKEN cfg),
        Run (command ''run-federalist-script'' (Some (build_flags cfg uevs))),
        TimerStop])"
  using assms by (simp add: run_defs action_defs TIMEOUT_SECONDS_def)

lemma messages_differ: "unexpected_msg cfg \<noteq> fetch_failure_msg"
  by (simp add: unexpected_msg_def fetch_failure_msg_def)


lemma attempt_count:
  "(case attempt w cfg uevs [InitLogging priv] of (r, t') \<Rightarrow>
      case r of
        Inl (Exn e) \<Rightarrow>
          length (terminals t') \<le> 1 \<and>
          (raises w PostComplete = None \<and> raises w PostFetchError = None \<longrightarrow> terminals t' = [])
      | _ \<Rightarrow> length (terminals t') = 1)"
  by (simp add: run_defs action_defs terminals_def split: option.splits)

lemma try_except_count:
  assumes "body t = (r, t')"
  shows "length (terminals (snd (try_except body (handlers w cfg) t)))
     = length (terminals t') + (case r of Inl (Exn e) \<Rightarrow> 1 | _ \<Rightarrow> 0)"
proof (cases r)
  case (Inl a)
  show ?thesis
  proof (cases a)
    case (Exn e)
    obtain r' l m ev where "handlers w cfg e t' = (r', t' @ [Log l m, ev])" "terminal ev"
      using handlers_terminal by blast
    with assms Inl Exn show ?thesis by (simp add: try_except_def terminals_def)
  next
    case (SystemExit n)
    with assms Inl show ?thesis by (simp add: try_except_def)
  qed
next
  case (Inr b)
  with assms show ?thesis by (simp add: try_except_def)
qed

lemma main_deadline_during_complete:
  "main sample_env deadline_during_complete =
     (Inr (),
      [InitLogging sample_private, NotifyProcessing, TimerStart 2700,
       Log INFO ''Running build for 18F/docs/main'',
       FetchRepo ''18F'' ''docs'' ''main'' ''ghp_token'',
       Run (command ''run-federalist-script'' (Some (build_flags sample_config sample_decrypted))),
       Run (command ''build-jekyll''
              (Some (build_flags sample_config sample_decrypted @ [(''--config'', ''{}'')]))),
       Publish [''/site/18F/docs'', ''site/18F/docs'', ''site-bucket'', ''max-age=60'',
                ''us-gov-west-1'', ''AKIDEXAMPLE'', ''wJalrEXAMPLEKEY''],
       Log INFO ''Total build time: 3m 20s'', NotifyComplete, TimerStop,
       Log WARNING ''Build(18F/docs@id:42) has timed out'', NotifyTimeout])"
proof -
  have g: "GENERATOR sample_config = ''jekyll''" "CONFIG sample_config = ''{}''"
    "OWNER sample_config = ''18F''" "REPOSITORY sample_config = ''docs''"
    "BRANCH sample_config = ''main''" "GITHUB_TOKEN sample_config = ''ghp_token''"
    "BUILD_ID sample_config = ''42''" "BASEURL sample_config = ''/site/18F/docs''"
    "SITE_PREFIX sample_config = ''site/18F/docs''" "BUCKET sample_config = ''site-bucket''"
    "CACHE_CONTROL sample_config = ''max-age=60''" "AWS_DEFAULT_REGION sample_config = ''us-gov-west-1''"
    "AWS_ACCESS_KEY_ID sample_config = ''AKIDEXAMPLE''"
    "AWS_SECRET_ACCESS_KEY sample_config = ''wJalrEXAMPLEKEY''"
    by (simp_all add: sample_config_def)
  have w: "raises deadline_during_complete
             = (\<lambda>s. if s = PostComplete then Some TimeoutException else None)"
    "return_code deadline_during_complete = 0"
    "delta_string deadline_during_complete = ''3m 20s''"
    by (simp_all add: deadline_during_complete_def calm_def)
  show ?thesis unfolding main_started [OF startup_deadline]
    by (simp add: run_defs try_except_def action_defs w g jekyll_flags BUILD_INFO_def
          TIMEOUT_SECONDS_def)
qed



lemma main_calm:
  "main sample_env calm =
     (Inr (),
      [InitLogging sample_private, NotifyProcessing, TimerStart 2700,
       Log INFO ''Running build for 18F/docs/main'',
       FetchRepo ''18F'' ''docs'' ''main'' ''ghp_token'',
       Run (command ''run-federalist-script'' (Some (build_flags sample_config sample_decrypted))),
       Run (command ''build-jekyll''
              (Some (build_flags sample_config sample_decrypted @ [(''--config'', ''{}'')]))),
       Publish [''/site/18F/docs'', ''site/18F/docs'', ''site-bucket'', ''max-age=60'',
                ''us-gov-west-1'', ''AKIDEXAMPLE'', ''wJalrEXAMPLEKEY''],
       Log INFO ''Total build time: 3m 20s'', NotifyComplete, TimerStop])"
proof -
  have g: "GENERATOR sample_config = ''jekyll''" "CONFIG sample_config = ''{}''"
    "OWNER sample_config = ''18F''" "REPOSITORY sample_config = ''docs''"
    "BRANCH sample_config = ''main''" "GITHUB_TOKEN sample_config = ''ghp_token''"
    "BUILD_ID sample_config = ''42''" "BASEURL sample_config = ''/site/18F/docs''"
    "SITE_PREFIX sample_config = ''site/18F/docs''" "BUCKET sample_config = ''site-bucket''"
    "CACHE_CONTROL sample_config = ''max-age=60''" "AWS_DEFAULT_REGION sample_config = ''us-gov-west-1''"
    "AWS_ACCESS_KEY_ID sample_config = ''AKIDEXAMPLE''"
    "AWS_SECRET_ACCESS_KEY sample_config = ''wJalrEXAMPLEKEY''"
    by (simp_all add: sample_config_def)
  have w: "raises calm = (\<lambda>s. None)" "return_code calm = 0" "delta_string calm = ''3m 20s''"
    by (simp_all add: calm_def)
  show ?thesis unfolding main_started [OF startup_calm]
    by (simp add: run_defs try_except_def action_defs w g jekyll_flags TIMEOUT_SECONDS_def)
qed

lemma timed_append: "timed on (a @ b) = timed on a @ timed (timer_on on a) b"
  by (induction on a rule: timed.induct) simp_all

lemma attempt_timing:
  "(case attempt w cfg uevs [InitLogging priv] of (r, t') \<Rightarrow>
      t' = InitLogging priv # NotifyProcessing # drop 2 t'
      \<and> timer_on False t' = False
      \<and> NotifyProcessing \<notin> set (timed False t')
      \<and> (\<forall>p. InitLogging p \<notin> set (timed False t'))
      \<and> NotifyTimeout \<notin> set t'
      \<and> (\<forall>n. TimerStart n \<in> set t' \<longrightarrow> n = 45 * 60)
      \<and> stages (timed False t') = stages t'
      \<and> (NotifyComplete \<in> set t' \<longrightarrow> NotifyComplete \<in> set (timed False t')))"
  by (simp add: run_defs action_defs stages_def TIMEOUT_SECONDS_def split: option.splits)

lemma handler_event_untimed:
  "timed False [Log l m, case e of TimeoutException \<Rightarrow> NotifyTimeout
                      | UnexpectedExit s \<Rightarrow> NotifyError s
                      | _ \<Rightarrow> NotifyError (unexpected_msg cfg)] = []"
  by (cases e) simp_all

lemma handler_event_other:
  "ev = (case e of TimeoutException \<Rightarrow> NotifyTimeout
                      | UnexpectedExit s \<Rightarrow> NotifyError s
                      | _ \<Rightarrow> NotifyError (unexpected_msg cfg)) \<Longrightarrow>
   ev \<noteq> NotifyComplete \<and> (\<forall>n. ev \<noteq> TimerStart n) \<and> \<not> is_stage ev"
  by (cases e) simp_all


lemma attempt_commands_all:
  "\<forall>c \<in> set (commands (snd (attempt w cfg uevs [InitLogging priv]))).
     c = command ''run-federalist-script'' (Some (build_flags cfg uevs))
     \<or> c = command ''build-jekyll'' (Some (build_flags cfg uevs @ [(''--config'', CONFIG cfg)]))
     \<or> c = command ''build-hugo'' (Some (build_flags cfg uevs))
     \<or> c = command ''build-static'' None"
  by (simp add: run_defs action_defs jekyll_flags split: option.splits)

lemma safe_build_flags:
  "\<forall>(flag, val) \<in> set (build_flags cfg uevs). \<forall>c \<in> set flag. safe_char c"
  by (simp add: build_flags_def safe_char_def word_char_def)

lemma safe_config_flag: "\<forall>c \<in> set ''--config''. safe_char c"
  by (simp add: safe_char_def word_char_def)

lemma safe_tasks:
  "\<forall>c \<in> set ''run-federalist-script''. safe_char c"
  "\<forall>c \<in> set ''build-jekyll''. safe_char c"
  "\<forall>c \<in> set ''build-hugo''. safe_char c"
  by (simp_all add: safe_char_def word_char_def)

lemma uev_flag_in_build_flags:
  "(''--user-env-vars'', json_dumps (uevs_value uevs)) \<in> set (build_flags cfg uevs)"
  by (simp add: build_flags_def)

lemma build_command_words:
  assumes "task \<noteq> []" "\<forall>c \<in> set task. safe_char c"
    and "flags = build_flags cfg uevs \<or> flags = build_flags cfg uevs @ [(''--config'', x)]"
  shows "(''--user-env-vars'', json_dumps (uevs_value uevs)) \<in> set flags
    \<and> (''--user-env-vars='' @ shlex_quote (json_dumps (uevs_value uevs))) \<in> set (flag_args (Some flags))
    \<and> (\<exists>ws. sh_words (command task (Some flags)) = Some ws
          \<and> Word (''--user-env-vars='' @ json_dumps (uevs_value uevs)) \<in> set ws)"
proof -
  have safe: "\<forall>(flag, val) \<in> set flags. \<forall>c \<in> set flag. safe_char c"
  proof (rule ballI)
    fix p assume p: "p \<in> set flags"
    with assms(3) have "p \<in> set (build_flags cfg uevs) \<or> p = (''--config'', x)" by auto
    then show "case p of (flag, val) \<Rightarrow> \<forall>c \<in> set flag. safe_char c"
    proof
      assume "p \<in> set (build_flags cfg uevs)"
      with safe_build_flags [of cfg uevs] show ?thesis by blast
    next
      assume "p = (''--config'', x)"
      with safe_config_flag show ?thesis by simp
    qed
  qed
  from assms(3) have m: "(''--user-env-vars'', json_dumps (uevs_value uevs)) \<in> set flags"
    using uev_flag_in_build_flags [of uevs cfg] by auto
  then have "(\<lambda>(flag, val). flag @ ''='' @ shlex_quote val) (''--user-env-vars'', json_dumps (uevs_value uevs))
      \<in> set (flag_args (Some flags))"
    unfolding flag_args_def option.case set_map by (rule imageI)
  then have a: "(''--user-env-vars='' @ shlex_quote (json_dumps (uevs_value uevs))) \<in> set (flag_args (Some flags))"
    by simp
  from m have "(\<lambda>(flag, val). Word (flag @ ''='' @ val)) (''--user-env-vars'', json_dumps (uevs_value uevs))
      \<in> set (map (\<lambda>(flag, val). Word (flag @ ''='' @ val)) flags)"
    unfolding set_map by (rule imageI)
  then have "Word (''--user-env-vars='' @ json_dumps (uevs_value uevs))
      \<in> set (Word ''inv'' # Word task # map (\<lambda>(flag, val). Word (flag @ ''='' @ val)) flags)"
    by simp
  moreover from assms(2) have "\<forall>c \<in> set task. sh_literal c"
    by (simp add: safe_char_literal)
  moreover from safe have "\<forall>(flag, val) \<in> set flags. \<forall>c \<in> set flag. sh_literal c"
    by (auto simp: safe_char_literal)
  ultimately show ?thesis
    using sh_words_command [OF assms(1), of flags] m a by simp
qed

lemma json_escape_plain: "plain_char c \<Longrightarrow> json_escape_char c = [c]"
  by (auto simp: plain_char_def json_escape_char_def)

lemma json_string_plain: "\<forall>c \<in> set s. plain_char c \<Longrightarrow> json_string s = [dquote] @ s @ [dquote]"
proof -
  assume "\<forall>c \<in> set s. plain_char c"
  then have "concat (map json_escape_char s) = s"
    by (induction s) (simp_all add: json_escape_plain)
  then show ?thesis by (simp add: json_string_def)
qed

lemma join_contains: "x \<in> set xs \<Longrightarrow> \<exists>pre post. join sep xs = pre @ x @ post"
proof (induction sep xs rule: join.induct)
  case (1 sep)
  then show ?case by simp
next
  case (2 sep y)
  then have "join sep [y] = [] @ x @ []" by simp
  then show ?case by blast
next
  case (3 sep y z zs)
  show ?case
  proof (cases "x = y")
    case True
    then have "join sep (y # z # zs) = [] @ x @ (sep @ join sep (z # zs))" by simp
    then show ?thesis by blast
  next
    case False
    with 3 obtain pre post where "join sep (z # zs) = pre @ x @ post" by auto
    then have "join sep (y # z # zs) = (y @ sep @ pre) @ x @ post" by simp
    then show ?thesis by blast
  qed
qed

lemma uev_in_json:
  assumes "(name, val) \<in> set uevs"
  shows "\<exists>pre post. json_dumps (uevs_value uevs) = pre @ json_string val @ post"
proof -
  let ?obj = "JObj [(''name'', name), (''value'', JStr val)]"
  from assms have "json_dumps ?obj \<in> set (map json_dumps (map (\<lambda>(name, val). JObj [(''name'', name), (''value'', JStr val)]) uevs))"
    by force
  from join_contains [OF this, of "'', ''"] obtain pre post where
    j: "join '', '' (map json_dumps (map (\<lambda>(name, val). JObj [(''name'', name), (''value'', JStr val)]) uevs))
         = pre @ json_dumps ?obj @ post" by blast
  have "json_dumps ?obj = (''{'' @ json_string ''name'' @ '': '' @ json_dumps name @ '', ''
          @ json_string ''value'' @ '': '') @ json_string val @ ''}''"
    by simp
  with j have "json_dumps (uevs_value uevs) =
      (''['' @ pre @ ''{'' @ json_string ''name'' @ '': '' @ json_dumps name @ '', ''
          @ json_string ''value'' @ '': '') @ json_string val @ (''}'' @ post @ '']'')"
    by (simp add: uevs_value_def)
  then show ?thesis by blast
qed

lemma decrypt_each_plaintexts:
  "decrypt_each w key xs = Inr ds \<Longrightarrow>
   list_all2 (\<lambda>uev (name, val). subscript uev ''name'' = Inr name \<and>
       (\<exists>ciphertext. subscript uev ''ciphertext'' = Inr ciphertext \<and> decrypt w ciphertext key = Inr val))
     xs ds"
proof (induction xs arbitrary: ds)
  case Nil
  then show ?case by simp
next
  case (Cons x xs)
  then show ?case
    by (auto simp: bindE_def split: sum.splits)
qed

lemma startup_plaintexts:
  assumes "startup env w = Inr (cfg, uevs, priv)"
  shows "\<exists>xs creds. iterate (USER_ENVIRONMENT_VARIABLES cfg) = Inr xs
     \<and> list_all2 (\<lambda>uev (name, val). subscript uev ''name'' = Inr name \<and>
          (\<exists>ciphertext. subscript uev ''ciphertext'' = Inr ciphertext
             \<and> decrypt w ciphertext (USER_ENVIRONMENT_VARIABLE_KEY cfg) = Inr val)) xs uevs
     \<and> priv = creds @ map snd uevs"
proof -
  from assms obtain xs where i: "iterate (USER_ENVIRONMENT_VARIABLES cfg) = Inr xs"
    and d: "decrypt_each w (USER_ENVIRONMENT_VARIABLE_KEY cfg) xs = Inr uevs"
    and p: "private_values env (map snd uevs) = Inr priv"
    by (auto simp: startup_def decrypted_uevs_def bindE_def split: sum.splits)
  from p obtain creds where "priv = creds @ map snd uevs"
    by (auto simp: private_values_def bindE_def Let_def split: sum.splits if_splits)
  with i decrypt_each_plaintexts [OF d] show ?thesis by blast
qed

lemma json_sample_decrypted:
  "json_dumps (uevs_value sample_decrypted) =
     [CHR ''['', CHR ''{'', dquote] @ ''name'' @ [dquote] @ '': '' @ [dquote]
     @ ''API_KEY'' @ [dquote] @ '', '' @ [dquote] @ ''value'' @ [dquote] @ '': '' @ [dquote]
     @ ''s3cr3t'' @ [dquote] @ ''}]''"
  by (simp add: sample_decrypted_def uevs_value_def json_string_def json_escape_char_def
        dquote_def backslash_def)


section \<open>The claims about quoting, the sanitizer and the secret set\<close>

text \<open>
  Claim C8. For every pair of AWS credentials in the environment, every source-control token
  (absent, empty or not) and every list of decrypted user values, \<^verbatim>\<open>private_values\<close> returns
  the access key, then the secret key, then the token if and only if it is not empty, then the
  user values in their order.
\<close>

theorem private_values_order:
  "env ''AWS_ACCESS_KEY_ID'' = Some access_key \<Longrightarrow>
   env ''AWS_SECRET_ACCESS_KEY'' = Some secret_key \<Longrightarrow>
   private_values env user_values =
     Inr ([access_key, secret_key]
          @ (if getenv env ''GITHUB_TOKEN'' [] \<noteq> [] then [getenv env ''GITHUB_TOKEN'' []] else [])
          @ user_values)"
  by (simp add: private_values_def bindE_def environ_def)

text \<open>The same at the sample environment, with its token and without one.\<close>

theorem private_values_order_witness:
  "sample_env ''AWS_ACCESS_KEY_ID'' = Some ''AKIDEXAMPLE'' \<and>
   sample_env ''AWS_SECRET_ACCESS_KEY'' = Some ''wJalrEXAMPLEKEY'' \<and>
   private_values sample_env [''s3cr3t'', ''hunter2'']
     = Inr [''AKIDEXAMPLE'', ''wJalrEXAMPLEKEY'', ''ghp_token'', ''s3cr3t'', ''hunter2''] \<and>
   private_values anonymous_env [''s3cr3t'', ''hunter2'']
     = Inr [''AKIDEXAMPLE'', ''wJalrEXAMPLEKEY'', ''s3cr3t'', ''hunter2'']"
proof -
  have a: "sample_env ''AWS_ACCESS_KEY_ID'' = Some ''AKIDEXAMPLE''"
    and s: "sample_env ''AWS_SECRET_ACCESS_KEY'' = Some ''wJalrEXAMPLEKEY''"
    and t: "getenv sample_env ''GITHUB_TOKEN'' [] = ''ghp_token''"
    by (simp_all add: sample_env_def getenv_def)
  have a': "anonymous_env ''AWS_ACCESS_KEY_ID'' = Some ''AKIDEXAMPLE''"
    and s': "anonymous_env ''AWS_SECRET_ACCESS_KEY'' = Some ''wJalrEXAMPLEKEY''"
    and t': "getenv anonymous_env ''GITHUB_TOKEN'' [] = []"
    by (simp_all add: anonymous_env_def sample_env_def getenv_def)
  have r: "private_values sample_env [''s3cr3t'', ''hunter2'']
     = Inr [''AKIDEXAMPLE'', ''wJalrEXAMPLEKEY'', ''ghp_token'', ''s3cr3t'', ''hunter2'']"
    using private_values_order [OF a s, of "[''s3cr3t'', ''hunter2'']"] by (simp add: t)
  have r': "private_values anonymous_env [''s3cr3t'', ''hunter2'']
     = Inr [''AKIDEXAMPLE'', ''wJalrEXAMPLEKEY'', ''s3cr3t'', ''hunter2'']"
    using private_values_order [OF a' s', of "[''s3cr3t'', ''hunter2'']"] unfolding t' by simp
  from a s r r' show ?thesis by simp
qed



text \<open>
  Claim C3, evaluated on the code. The claim says that the request keys are matched against
  the parameters of \<^verbatim>\<open>build\<close> without regard to case. The code tests \<^verbatim>\<open>k in build_arguments\<close>
  on the key as it is written and lower-cases it only afterwards: the key \<^verbatim>\<open>BRANCH\<close>, whose
  lower-case form is a parameter, is warned about as unused and dropped, and the program ends
  with \<^verbatim>\<open>KeyError('branch')\<close>.
\<close>

theorem upper_case_key_is_dropped:
  "lower ''BRANCH'' \<in> set sample_arguments
   \<and> build_kwargs sample_arguments upper_request
       = [(''owner'', JStr ''18F''), (''repository'', JStr ''site''),
          (''user_environment_variables'', JArr [])]
   \<and> sanitize sample_json_loads sample_arguments Map.empty upper_request
       = ([''WARNING - Ignoring unused build argument: BRANCH''], Map.empty,
          Inl (KeyError ''branch''))"
  by (simp add: sanitize_def promote_def unused_warnings_def validated_kwargs_def build_kwargs_def
        sample_arguments_def upper_request_def lower_def lower_char_def decode_uevs_def
        quote_kwarg_def bindE_def getitem_def)

text \<open>
  Claim C9. When \<^verbatim>\<open>user_environment_variables\<close>, \<^verbatim>\<open>branch\<close>, \<^verbatim>\<open>owner\<close> or \<^verbatim>\<open>repository\<close> is
  absent from the request, or present with the value null, the keyword arguments do not have
  it, the access \<^verbatim>\<open>kwargs[name]\<close> raises \<^verbatim>\<open>KeyError\<close>, and the sanitizer never reaches
  \<^verbatim>\<open>build\<close>: it ends with an exception that nothing catches, which is this \<^verbatim>\<open>KeyError\<close>
  whenever the statements before the access have returned. The parameter names of \<^verbatim>\<open>build\<close>
  are taken to be in lower case, as the lower-cased keys are passed to it by name.
\<close>

theorem missing_kwarg_raises_KeyError:
  assumes "\<forall>a \<in> set build_arguments. lower a = a"
    and "name \<in> {''user_environment_variables'', ''branch'', ''owner'', ''repository''}"
    and "\<forall>v. (name, v) \<in> set params \<longrightarrow> v = JNull"
  shows "getitem (build_kwargs build_arguments params) name = Inl (KeyError name)
    \<and> (\<exists>e. snd (snd (sanitize jl build_arguments env params)) = Inl e)
    \<and> (\<exists>e. validated_kwargs jl build_arguments params = Inl e)
    \<and> (name = ''user_environment_variables''
         \<longrightarrow> validated_kwargs jl build_arguments params = Inl (KeyError name))
    \<and> (\<forall>k1. name = ''branch'' \<and> decode_uevs jl (build_kwargs build_arguments params) = Inr k1
         \<longrightarrow> validated_kwargs jl build_arguments params = Inl (KeyError name))
    \<and> (\<forall>k1 k2. name = ''owner'' \<and> decode_uevs jl (build_kwargs build_arguments params) = Inr k1
            \<and> quote_kwarg ''branch'' k1 = Inr k2
         \<longrightarrow> validated_kwargs jl build_arguments params = Inl (KeyError name))
    \<and> (\<forall>k1 k2 k3. name = ''repository'' \<and> decode_uevs jl (build_kwargs build_arguments params) = Inr k1
            \<and> quote_kwarg ''branch'' k1 = Inr k2 \<and> quote_kwarg ''owner'' k2 = Inr k3
         \<longrightarrow> validated_kwargs jl build_arguments params = Inl (KeyError name))"
proof -
  note m = missing_kwarg [OF assms(1,3)]
  note v = validated_missing [OF m assms(2), of jl]
  have "getitem (build_kwargs build_arguments params) name = Inl (KeyError name)"
    using m by (simp add: getitem_def)
  moreover have "\<exists>e. snd (snd (sanitize jl build_arguments env params)) = Inl e"
    using v(1) by (auto simp: sanitize_def split: sum.splits)
  ultimately show ?thesis using v by blast
qed

text \<open>The same for the sample request whose branch is null.\<close>

theorem missing_kwarg_raises_KeyError_witness:
  "map lower sample_arguments = sample_arguments
   \<and> map snd (filter (\<lambda>(k, v). k = ''branch'') null_branch_request) = [JNull]
   \<and> decode_uevs sample_json_loads (build_kwargs sample_arguments null_branch_request)
       = Inr [(''owner'', JStr ''18F''), (''repository'', JStr ''site''),
              (''user_environment_variables'', JArr [])]
   \<and> sanitize sample_json_loads sample_arguments Map.empty null_branch_request
       = ([], Map.empty, Inl (KeyError ''branch''))"
proof -
  have n: "\<forall>v. (''branch'', v) \<in> set null_branch_request \<longrightarrow> v = JNull"
    by (simp add: null_branch_request_def)
  have k: "build_kwargs sample_arguments null_branch_request
      = [(''owner'', JStr ''18F''), (''repository'', JStr ''site''), (''user_environment_variables'', JArr [])]"
    by (simp add: build_kwargs_def sample_arguments_def null_branch_request_def lower_def lower_char_def)
  have d: "decode_uevs sample_json_loads (build_kwargs sample_arguments null_branch_request)
       = Inr [(''owner'', JStr ''18F''), (''repository'', JStr ''site''),
              (''user_environment_variables'', JArr [])]"
    by (simp add: k decode_uevs_def bindE_def getitem_def)
  from missing_kwarg_raises_KeyError [OF lower_sample _ n, of sample_json_loads Map.empty] d
  have "validated_kwargs sample_json_loads sample_arguments null_branch_request = Inl (KeyError ''branch'')"
    by simp
  moreover have "unused_warnings sample_arguments null_branch_request = []"
    by (simp add: unused_warnings_def sample_arguments_def null_branch_request_def)
  ultimately have "sanitize sample_json_loads sample_arguments Map.empty null_branch_request
       = ([], Map.empty, Inl (KeyError ''branch''))"
    by (simp add: sanitize_def promote_def null_branch_request_def)
  moreover have "map lower sample_arguments = sample_arguments"
    using lower_sample by (simp add: map_idI)
  moreover have "map snd (filter (\<lambda>(k, v). k = ''branch'') null_branch_request) = [JNull]"
    by (simp add: null_branch_request_def)
  ultimately show ?thesis using d by simp
qed


section \<open>The claims about the pipeline\<close>




text \<open>
  Claim C5. Once the fetch has succeeded, the first command is \<^verbatim>\<open>run-federalist-script\<close> with
  the build flags, whatever the generator is. When it returns, the generator decides:
  \<^verbatim>\<open>jekyll\<close> runs \<^verbatim>\<open>build-jekyll\<close> with the build flags and \<^verbatim>\<open>--config\<close> added last,
  \<^verbatim>\<open>hugo\<close> runs \<^verbatim>\<open>build-hugo\<close> with the build flags, \<^verbatim>\<open>static\<close> runs \<^verbatim>\<open>build-static\<close>
  with no flag, \<^verbatim>\<open>node.js\<close> and \<^verbatim>\<open>script only\<close> run nothing more and go on to publish, and
  any other value raises \<^verbatim>\<open>ValueError\<close> at once: no further stage is called, and the run
  ends with one error notification, whose message is not the fetch-failure message.
\<close>

theorem build_stage_dispatch:
  assumes "startup env w = Inr (cfg, uevs, priv)"
    and "raises w PostProcessing = None"
    and "raises w Fetch = None"
    and "return_code w = 0"
  shows "(\<exists>rest. commands (snd (main env w))
            = command ''run-federalist-script'' (Some (build_flags cfg uevs)) # rest)
    \<and> (raises w (RunTask ''run-federalist-script'') = None \<longrightarrow>
         (GENERATOR cfg = ''jekyll'' \<longrightarrow>
            commands (snd (main env w)) =
              [command ''run-federalist-script'' (Some (build_flags cfg uevs)),
               command ''build-jekyll'' (Some (build_flags cfg uevs @ [(''--config'', CONFIG cfg)]))])
       \<and> (GENERATOR cfg = ''hugo'' \<longrightarrow>
            commands (snd (main env w)) =
              [command ''run-federalist-script'' (Some (build_flags cfg uevs)),
               command ''build-hugo'' (Some (build_flags cfg uevs))])
       \<and> (GENERATOR cfg = ''static'' \<longrightarrow>
            commands (snd (main env w)) =
              [command ''run-federalist-script'' (Some (build_flags cfg uevs)),
               ''inv build-static ''])
       \<and> (GENERATOR cfg = ''node.js'' \<or> GENERATOR cfg = ''script only'' \<longrightarrow>
            commands (snd (main env w)) =
              [command ''run-federalist-script'' (Some (build_flags cfg uevs))]
            \<and> stages (snd (main env w)) =
              [FetchRepo (OWNER cfg) (REPOSITORY cfg) (BRANCH cfg) (GITHUB_TOKEN cfg),
               Run (command ''run-federalist-script'' (Some (build_flags cfg uevs))),
               Publish [BASEURL cfg, SITE_PREFIX cfg, BUCKET cfg, CACHE_CONTROL cfg,
                        AWS_DEFAULT_REGION cfg, AWS_ACCESS_KEY_ID cfg, AWS_SECRET_ACCESS_KEY cfg]])
       \<and> (GENERATOR cfg \<notin> {''jekyll'', ''hugo'', ''static'', ''node.js'', ''script only''} \<longrightarrow>
            snd (main env w) =
              [InitLogging priv, NotifyProcessing, TimerStart (45 * 60),
               Log INFO (''Running build for '' @ OWNER cfg @ ''/'' @ REPOSITORY cfg @ ''/''
                          @ BRANCH cfg),
               FetchRepo (OWNER cfg) (REPOSITORY cfg) (BRANCH cfg) (GITHUB_TOKEN cfg),
               Run (command ''run-federalist-script'' (Some (build_flags cfg uevs))),
               TimerStop,
               Log WARNING (''Unexpected exception raised during build('' @ BUILD_INFO cfg
                             @ ''): '' @ ''Invalid GENERATOR: '' @ GENERATOR cfg),
               NotifyError (unexpected_msg cfg)]
            \<and> terminals (snd (main env w)) = [NotifyError (unexpected_msg cfg)]
            \<and> unexpected_msg cfg \<noteq> fetch_failure_msg))"
proof -
  note c = attempt_commands [OF assms(2-4), of cfg uevs priv]
  have static: "command ''build-static'' None = ''inv build-static ''"
    by (simp add: command_def flag_args_def)
  have first: "\<exists>rest. commands (snd (main env w))
            = command ''run-federalist-script'' (Some (build_flags cfg uevs)) # rest"
    using c by (simp add: commands_main [OF assms(1)])
  have rest: "raises w (RunTask ''run-federalist-script'') = None \<Longrightarrow>
       commands (snd (main env w)) =
         command ''run-federalist-script'' (Some (build_flags cfg uevs)) #
        (if GENERATOR cfg = ''jekyll'' then
          [command ''build-jekyll'' (Some (build_flags cfg uevs @ [(''--config'', CONFIG cfg)]))]
        else if GENERATOR cfg = ''hugo'' then [command ''build-hugo'' (Some (build_flags cfg uevs))]
        else if GENERATOR cfg = ''static'' then [''inv build-static '']
        else [])"
    using c by (simp add: commands_main [OF assms(1)] static)
  have node: "raises w (RunTask ''run-federalist-script'') = None \<Longrightarrow>
       GENERATOR cfg = ''node.js'' \<or> GENERATOR cfg = ''script only'' \<Longrightarrow>
       stages (snd (main env w)) =
              [FetchRepo (OWNER cfg) (REPOSITORY cfg) (BRANCH cfg) (GITHUB_TOKEN cfg),
               Run (command ''run-federalist-script'' (Some (build_flags cfg uevs))),
               Publish [BASEURL cfg, SITE_PREFIX cfg, BUCKET cfg, CACHE_CONTROL cfg,
                        AWS_DEFAULT_REGION cfg, AWS_ACCESS_KEY_ID cfg, AWS_SECRET_ACCESS_KEY cfg]]"
    using attempt_stages_script_only [OF assms(2-4), of cfg uevs priv]
    by (simp add: stages_main [OF assms(1)])
  have bogus: "raises w (RunTask ''run-federalist-script'') = None \<Longrightarrow>
       GENERATOR cfg \<notin> {''jekyll'', ''hugo'', ''static'', ''node.js'', ''script only''} \<Longrightarrow>
            snd (main env w) =
              [InitLogging priv, NotifyProcessing, TimerStart (45 * 60),
               Log INFO (''Running build for '' @ OWNER cfg @ ''/'' @ REPOSITORY cfg @ ''/''
                          @ BRANCH cfg),
               FetchRepo (OWNER cfg) (REPOSITORY cfg) (BRANCH cfg) (GITHUB_TOKEN cfg),
               Run (command ''run-federalist-script'' (Some (build_flags cfg uevs))),
               TimerStop,
               Log WARNING (''Unexpected exception raised during build('' @ BUILD_INFO cfg
                             @ ''): '' @ ''Invalid GENERATOR: '' @ GENERATOR cfg),
               NotifyError (unexpected_msg cfg)]"
    using attempt_invalid_generator [OF assms(2-4), of cfg uevs "[InitLogging priv]"]
    by (simp add: main_started [OF assms(1)] try_except_def action_defs)
  from bogus have bogus': "raises w (RunTask ''run-federalist-script'') = None \<Longrightarrow>
       GENERATOR cfg \<notin> {''jekyll'', ''hugo'', ''static'', ''node.js'', ''script only''} \<Longrightarrow>
       terminals (snd (main env w)) = [NotifyError (unexpected_msg cfg)]"
    by (simp add: terminals_def)
  show ?thesis
    using first rest node bogus bogus' messages_differ [of cfg]
    by (intro conjI impI) auto
qed

text \<open>The same for the sample run with \<^verbatim>\<open>jekyll\<close>, and for the one whose generator is
  \<^verbatim>\<open>bogus\<close>.\<close>

theorem build_stage_dispatch_witness:
  "startup sample_env calm = Inr (sample_config, sample_decrypted, sample_private)
   \<and> raises calm PostProcessing = None \<and> raises calm Fetch = None \<and> return_code calm = 0
   \<and> raises calm (RunTask ''run-federalist-script'') = None
   \<and> GENERATOR sample_config = ''jekyll''
   \<and> commands (snd (main sample_env calm)) =
        [command ''run-federalist-script'' (Some (build_flags sample_config sample_decrypted)),
         command ''build-jekyll''
           (Some (build_flags sample_config sample_decrypted @ [(''--config'', ''{}'')]))]
   \<and> startup bogus_env calm
        = Inr (sample_config \<lparr> GENERATOR := ''bogus'' \<rparr>, sample_decrypted, sample_private)
   \<and> snd (main bogus_env calm) =
        [InitLogging sample_private, NotifyProcessing, TimerStart 2700,
         Log INFO ''Running build for 18F/docs/main'',
         FetchRepo ''18F'' ''docs'' ''main'' ''ghp_token'',
         Run (command ''run-federalist-script''
                (Some (build_flags (sample_config \<lparr> GENERATOR := ''bogus'' \<rparr>) sample_decrypted))),
         TimerStop,
         Log WARNING ''Unexpected exception raised during build(18F/docs@id:42): Invalid GENERATOR: bogus'',
         NotifyError ''Unexpected build(18F/docs@id:42) error. Please try again and contact federalist-support if it persists.'']
   \<and> terminals (snd (main bogus_env calm)) =
        [NotifyError ''Unexpected build(18F/docs@id:42) error. Please try again and contact federalist-support if it persists.'']"
proof -
  have h: "raises calm PostProcessing = None" "raises calm Fetch = None" "return_code calm = 0"
    "raises calm (RunTask ''run-federalist-script'') = None"
    by (simp_all add: calm_def)
  have g: "GENERATOR sample_config = ''jekyll''" "CONFIG sample_config = ''{}''"
    by (simp_all add: sample_config_def)
  have m: "unexpected_msg (sample_config \<lparr> GENERATOR := ''bogus'' \<rparr>) =
     ''Unexpected build(18F/docs@id:42) error. Please try again and contact federalist-support if it persists.''"
    by (simp add: unexpected_msg_def BUILD_INFO_def sample_config_def)
  from build_stage_dispatch [OF startup_calm h(1-3)] h(4) g
  have j: "commands (snd (main sample_env calm)) =
        [command ''run-federalist-script'' (Some (build_flags sample_config sample_decrypted)),
         command ''build-jekyll''
           (Some (build_flags sample_config sample_decrypted @ [(''--config'', ''{}'')]))]"
    by simp
  from build_stage_dispatch [OF startup_bogus h(1-3)] h(4)
  have b: "snd (main bogus_env calm) =
        [InitLogging sample_private, NotifyProcessing, TimerStart 2700,
         Log INFO ''Running build for 18F/docs/main'',
         FetchRepo ''18F'' ''docs'' ''main'' ''ghp_token'',
         Run (command ''run-federalist-script''
                (Some (build_flags (sample_config \<lparr> GENERATOR := ''bogus'' \<rparr>) sample_decrypted))),
         TimerStop,
         Log WARNING ''Unexpected exception raised during build(18F/docs@id:42): Invalid GENERATOR: bogus'',
         NotifyError ''Unexpected build(18F/docs@id:42) error. Please try again and contact federalist-support if it persists.'']"
    by (simp add: m) (simp add: sample_config_def BUILD_INFO_def)
  then have "terminals (snd (main bogus_env calm)) =
        [NotifyError ''Unexpected build(18F/docs@id:42) error. Please try again and contact federalist-support if it persists.'']"
    by (simp add: terminals_def)
  with j b h g startup_calm startup_bogus show ?thesis by simp
qed

text \<open>
  Claim C7, as the code has it. The claim says that the run goes on through fetch, build and
  publish when \<^verbatim>\<open>post_build_processing\<close> raises. The call is the first statement of the
  \<^verbatim>\<open>try\<close> block: when it raises, no stage is called and the deadline timer is never
  started; the handler for the exception logs it and sends the one terminal notification of
  the run (timeout for a \<^verbatim>\<open>TimeoutException\<close>, the error text for an \<^verbatim>\<open>UnexpectedExit\<close>,
  the generic message for any other exception).
\<close>

theorem processing_failure_ends_the_run:
  assumes "startup env w = Inr (cfg, uevs, priv)"
    and "raises w PostProcessing = Some e"
  shows "(\<exists>l m. snd (main env w) =
            [InitLogging priv, NotifyProcessing, Log l m,
             case e of TimeoutException \<Rightarrow> NotifyTimeout
                     | UnexpectedExit s \<Rightarrow> NotifyError s
                     | _ \<Rightarrow> NotifyError (unexpected_msg cfg)])
    \<and> stages (snd (main env w)) = []
    \<and> terminals (snd (main env w)) =
         [case e of TimeoutException \<Rightarrow> NotifyTimeout
                  | UnexpectedExit s \<Rightarrow> NotifyError s
                  | _ \<Rightarrow> NotifyError (unexpected_msg cfg)]"
proof -
  have a: "attempt w cfg uevs [InitLogging priv] = (Inl (Exn e), [InitLogging priv, NotifyProcessing])"
    using assms(2) by (simp add: attempt_def action_defs)
  obtain r l m where h: "handlers w cfg e [InitLogging priv, NotifyProcessing] =
     (r, [InitLogging priv, NotifyProcessing] @ [Log l m,
              case e of TimeoutException \<Rightarrow> NotifyTimeout
                      | UnexpectedExit s \<Rightarrow> NotifyError s
                      | _ \<Rightarrow> NotifyError (unexpected_msg cfg)])"
    using handlers_appends by blast
  have m: "snd (main env w) = [InitLogging priv, NotifyProcessing, Log l m,
              case e of TimeoutException \<Rightarrow> NotifyTimeout
                      | UnexpectedExit s \<Rightarrow> NotifyError s
                      | _ \<Rightarrow> NotifyError (unexpected_msg cfg)]"
    using a h by (simp add: main_started [OF assms(1)] try_except_def)
  show ?thesis unfolding m by (cases e) (simp_all add: stages_def terminals_def)
qed


text \<open>The same for the sample run in which the processing notification cannot be
  delivered.\<close>

theorem processing_failure_ends_the_run_witness:
  "startup sample_env processing_fails = Inr (sample_config, sample_decrypted, sample_private)
   \<and> raises processing_fails PostProcessing = Some (OtherException ''connection refused'')
   \<and> stages (snd (main sample_env processing_fails)) = []
   \<and> terminals (snd (main sample_env processing_fails)) =
       [NotifyError ''Unexpected build(18F/docs@id:42) error. Please try again and contact federalist-support if it persists.'']"
proof -
  have r: "raises processing_fails PostProcessing = Some (OtherException ''connection refused'')"
    by (simp add: processing_fails_def calm_def)
  have m: "unexpected_msg sample_config =
     ''Unexpected build(18F/docs@id:42) error. Please try again and contact federalist-support if it persists.''"
    by (simp add: unexpected_msg_def BUILD_INFO_def sample_config_def)
  from processing_failure_ends_the_run [OF startup_processing_fails r] r startup_processing_fails
  show ?thesis by (simp add: m)
qed

text \<open>
  Claim C7 as it is written fails on that run: \<^verbatim>\<open>post_build_processing\<close> raises, and the run
  ends with the error notification of the last handler, without any stage.
\<close>

theorem processing_failure_counterexample:
  "raises processing_fails PostProcessing = Some (OtherException ''connection refused'')
   \<and> main sample_env processing_fails =
       (Inr (),
        [InitLogging sample_private, NotifyProcessing,
         Log WARNING ''Unexpected exception raised during build(18F/docs@id:42): connection refused'',
         NotifyError ''Unexpected build(18F/docs@id:42) error. Please try again and contact federalist-support if it persists.''])
   \<and> stages (snd (main sample_env processing_fails)) = []"
proof -
  have r: "raises processing_fails PostProcessing = Some (OtherException ''connection refused'')"
    "raises processing_fails PostUnexpectedError = None"
    by (simp_all add: processing_fails_def calm_def)
  have "main sample_env processing_fails =
       (Inr (),
        [InitLogging sample_private, NotifyProcessing,
         Log WARNING ''Unexpected exception raised during build(18F/docs@id:42): connection refused'',
         NotifyError ''Unexpected build(18F/docs@id:42) error. Please try again and contact federalist-support if it persists.''])"
    using r
    by (simp add: main_started [OF startup_processing_fails] attempt_def try_except_def action_defs
          unexpected_msg_def BUILD_INFO_def sample_config_def)
  with r show ?thesis by (simp add: stages_def)
qed

text \<open>
  Claim C1, as the code has it. A run whose start-up raises (a variable missing from the
  environment, a value that cannot be decrypted) ends before the \<^verbatim>\<open>try\<close> block and sends no
  notification. Every run whose start-up succeeds makes at least one and at most two terminal
  notifier calls, and exactly one when the two terminal calls placed inside the \<^verbatim>\<open>try\<close>
  block and the deadline (\<^verbatim>\<open>post_build_complete\<close> after publish, \<^verbatim>\<open>post_build_error\<close> after a
  failed fetch) return when they are made. When such a call raises, or the deadline comes
  while it is in progress, a handler makes a second terminal call.
\<close>

theorem terminal_notifications_of_a_run:
  "(startup env w = Inl e \<longrightarrow> main env w = (Inl (Exn e), []) \<and> terminals (snd (main env w)) = [])
   \<and> (startup env w = Inr (cfg, uevs, priv) \<longrightarrow>
        1 \<le> length (terminals (snd (main env w)))
        \<and> length (terminals (snd (main env w))) \<le> 2
        \<and> (raises w PostComplete = None \<and> raises w PostFetchError = None
             \<longrightarrow> length (terminals (snd (main env w))) = 1))"
proof (intro conjI impI)
  assume "startup env w = Inl e"
  then show "main env w = (Inl (Exn e), [])" "terminals (snd (main env w)) = []"
    by (simp_all add: main_not_started terminals_def)
next
  assume s: "startup env w = Inr (cfg, uevs, priv)"
  obtain r t' where a: "attempt w cfg uevs [InitLogging priv] = (r, t')" by fastforce
  from attempt_count [of w cfg uevs priv] a have
    c: "(case r of
           Inl (Exn e) \<Rightarrow>
             length (terminals t') \<le> 1 \<and>
             (raises w PostComplete = None \<and> raises w PostFetchError = None \<longrightarrow> terminals t' = [])
         | _ \<Rightarrow> length (terminals t') = 1)" by simp
  note n = try_except_count [of "attempt w cfg uevs" "[InitLogging priv]" r t' w cfg, OF a]
  from n c show "1 \<le> length (terminals (snd (main env w)))"
    by (auto simp: main_started [OF s] split: sum.splits raised.splits)
  from n c show "length (terminals (snd (main env w))) \<le> 2"
    by (auto simp: main_started [OF s] split: sum.splits raised.splits)
  assume "raises w PostComplete = None \<and> raises w PostFetchError = None"
  with n c show "length (terminals (snd (main env w))) = 1"
    by (auto simp: main_started [OF s] split: sum.splits raised.splits)
qed

text \<open>The same for three sample runs: the one in which every call returns, the one in which
  the deadline comes during the completion call, and the one that cannot decrypt.\<close>

theorem terminal_notifications_of_a_run_witness:
  "startup sample_env calm = Inr (sample_config, sample_decrypted, sample_private)
   \<and> raises calm PostComplete = None \<and> raises calm PostFetchError = None
   \<and> terminals (snd (main sample_env calm)) = [NotifyComplete]
   \<and> length (terminals (snd (main sample_env calm))) = 1
   \<and> startup sample_env deadline_during_complete
       = Inr (sample_config, sample_decrypted, sample_private)
   \<and> length (terminals (snd (main sample_env deadline_during_complete))) = 2
   \<and> startup wrong_key_env calm = Inl (OtherException ''bad key'')
   \<and> terminals (snd (main wrong_key_env calm)) = []"
proof -
  have r: "raises calm PostComplete = None" "raises calm PostFetchError = None"
    by (simp_all add: calm_def)
  from terminal_notifications_of_a_run [of sample_env calm _ sample_config sample_decrypted sample_private]
    startup_calm r
  have one: "length (terminals (snd (main sample_env calm))) = 1" by simp
  from terminal_notifications_of_a_run [of wrong_key_env calm "OtherException ''bad key''"]
    startup_wrong_key
  have none: "terminals (snd (main wrong_key_env calm)) = []" by (simp add: terminals_def)
  have c: "terminals (snd (main sample_env calm)) = [NotifyComplete]"
    by (simp add: main_calm terminals_def)
  have two: "length (terminals (snd (main sample_env deadline_during_complete))) = 2"
    by (simp add: main_deadline_during_complete terminals_def)
  from one none c two startup_calm startup_deadline startup_wrong_key r show ?thesis by simp
qed

text \<open>
  Claim C1 as it is written fails on two runs: when the deadline comes during
  \<^verbatim>\<open>post_build_complete\<close>, the completion and the timeout are both notified; when a user
  variable cannot be decrypted, nothing is.
\<close>

theorem terminal_notifications_counterexample:
  "terminals (snd (main sample_env deadline_during_complete)) = [NotifyComplete, NotifyTimeout]
   \<and> main wrong_key_env calm = (Inl (Exn (OtherException ''bad key'')), [])
   \<and> terminals (snd (main wrong_key_env calm)) = []"
  by (simp add: main_deadline_during_complete terminals_def main_not_started [OF startup_wrong_key])


text \<open>
  Claim C6, as the code has it. The processing notification is the first call after start-up
  and comes before the deadline timer is started; neither start-up nor this notification is
  made while the timer runs. The timer is started for 45 minutes, and every stage call (fetch,
  build tasks, publish) is made while it runs. The block under the timer does not end with
  publish: the completion notification, whenever it is made, is made while the timer still
  runs. The timeout notification is made after the timer has stopped.
\<close>

theorem deadline_scope:
  assumes "startup env w = Inr (cfg, uevs, priv)"
  shows "(\<exists>rest. snd (main env w) = InitLogging priv # NotifyProcessing # rest)
    \<and> NotifyProcessing \<notin> set (timed False (snd (main env w)))
    \<and> (\<forall>p. InitLogging p \<notin> set (timed False (snd (main env w))))
    \<and> NotifyTimeout \<notin> set (timed False (snd (main env w)))
    \<and> (\<forall>n. TimerStart n \<in> set (snd (main env w)) \<longrightarrow> n = 45 * 60)
    \<and> stages (timed False (snd (main env w))) = stages (snd (main env w))
    \<and> (NotifyComplete \<in> set (snd (main env w))
         \<longrightarrow> NotifyComplete \<in> set (timed False (snd (main env w))))"
proof -
  obtain r t' where a: "attempt w cfg uevs [InitLogging priv] = (r, t')" by fastforce
  from attempt_timing [where w = w and cfg = cfg and uevs = uevs and priv = priv] a have
    f: "t' = InitLogging priv # NotifyProcessing # drop 2 t'"
      "timer_on False t' = False"
      "NotifyProcessing \<notin> set (timed False t')"
      "\<forall>p. InitLogging p \<notin> set (timed False t')"
      "NotifyTimeout \<notin> set t'"
      "\<forall>n. TimerStart n \<in> set t' \<longrightarrow> n = 45 * 60"
      "stages (timed False t') = stages t'"
      "NotifyComplete \<in> set t' \<longrightarrow> NotifyComplete \<in> set (timed False t')"
    by simp_all
  have sub: "set (timed on t) \<subseteq> set t" for on t
    by (induction on t rule: timed.induct) auto
  from f(5) sub [of False t'] have nt: "NotifyTimeout \<notin> set (timed False t')" by blast
  consider (plain) "snd (main env w) = t'"
    | (caught) e l m where "snd (main env w) = t' @ [Log l m,
              case e of TimeoutException \<Rightarrow> NotifyTimeout
                      | UnexpectedExit s \<Rightarrow> NotifyError s
                      | _ \<Rightarrow> NotifyError (unexpected_msg cfg)]"
  proof (cases r)
    case (Inr u)
    with a have "snd (main env w) = t'" by (simp add: main_started [OF assms] try_except_def)
    then show ?thesis by (rule plain)
  next
    case (Inl x)
    show ?thesis
    proof (cases x)
      case (SystemExit n)
      with a Inl have "snd (main env w) = t'" by (simp add: main_started [OF assms] try_except_def)
      then show ?thesis by (rule plain)
    next
      case (Exn e)
      obtain r' l m where "handlers w cfg e t' =
        (r', t' @ [Log l m, case e of TimeoutException \<Rightarrow> NotifyTimeout
                      | UnexpectedExit s \<Rightarrow> NotifyError s
                      | _ \<Rightarrow> NotifyError (unexpected_msg cfg)])"
        using handlers_appends by blast
      with a Inl Exn have "snd (main env w) = t' @ [Log l m,
              case e of TimeoutException \<Rightarrow> NotifyTimeout
                      | UnexpectedExit s \<Rightarrow> NotifyError s
                      | _ \<Rightarrow> NotifyError (unexpected_msg cfg)]"
        by (simp add: main_started [OF assms] try_except_def)
      then show ?thesis by (rule caught)
    qed
  qed
  then show ?thesis
  proof cases
    case plain
    from f(1) have "\<exists>rest. t' = InitLogging priv # NotifyProcessing # rest" by blast
    with f nt show ?thesis unfolding plain by blast
  next
    case (caught e l m)
    define ev where "ev = (case e of TimeoutException \<Rightarrow> NotifyTimeout
                      | UnexpectedExit s \<Rightarrow> NotifyError s
                      | _ \<Rightarrow> NotifyError (unexpected_msg cfg))"
    note o = handler_event_other [OF ev_def]
    have u: "timed False [Log l m, ev] = []"
      unfolding ev_def by (rule handler_event_untimed)
    have m: "snd (main env w) = t' @ [Log l m, ev]"
      using caught by (simp add: ev_def)
    have t: "timed False (t' @ [Log l m, ev]) = timed False t'"
      by (simp only: timed_append f(2) u append_Nil2)
    from f(1) have "t' @ [Log l m, ev] = InitLogging priv # NotifyProcessing # (drop 2 t' @ [Log l m, ev])"
      by (metis append_Cons)
    then have 1: "\<exists>rest. t' @ [Log l m, ev] = InitLogging priv # NotifyProcessing # rest" by blast
    have 5: "\<forall>n. TimerStart n \<in> set (t' @ [Log l m, ev]) \<longrightarrow> n = 45 * 60"
    proof (intro allI impI)
      fix n assume "TimerStart n \<in> set (t' @ [Log l m, ev])"
      with o have "TimerStart n \<in> set t'" by auto
      with f(6) show "n = 45 * 60" by blast
    qed
    have 6: "stages (timed False t') = stages (t' @ [Log l m, ev])"
      using f(7) o by (simp add: stages_def)
    have 7: "NotifyComplete \<in> set (t' @ [Log l m, ev]) \<longrightarrow> NotifyComplete \<in> set (timed False t')"
    proof
      assume "NotifyComplete \<in> set (t' @ [Log l m, ev])"
      with o have "NotifyComplete \<in> set t'" by auto
      with f(8) show "NotifyComplete \<in> set (timed False t')" by blast
    qed
    from 1 5 6 7 f(3,4) nt show ?thesis unfolding m t by blast
  qed
qed


text \<open>The same for the sample run in which every call returns.\<close>

theorem deadline_scope_witness:
  "startup sample_env calm = Inr (sample_config, sample_decrypted, sample_private)
   \<and> take 3 (snd (main sample_env calm)) = [InitLogging sample_private, NotifyProcessing, TimerStart 2700]
   \<and> NotifyProcessing \<notin> set (timed False (snd (main sample_env calm)))
   \<and> stages (timed False (snd (main sample_env calm))) = stages (snd (main sample_env calm))
   \<and> NotifyComplete \<in> set (snd (main sample_env calm))
   \<and> NotifyComplete \<in> set (timed False (snd (main sample_env calm)))"
proof -
  have c: "NotifyComplete \<in> set (snd (main sample_env calm))"
    by (simp add: main_calm)
  have t: "take 3 (snd (main sample_env calm)) = [InitLogging sample_private, NotifyProcessing, TimerStart 2700]"
    by (simp add: main_calm)
  from deadline_scope [OF startup_calm] c t startup_calm show ?thesis by blast
qed

text \<open>
  Claim C6 as it is written fails where it says that nothing after the publish stage is
  subject to the deadline: in the sample run the elapsed-time log line and the completion
  notification follow publish while the timer runs, and when the deadline comes during the
  completion notification the run ends with a timeout after a successful publish.
\<close>

theorem deadline_scope_counterexample:
  "drop 4 (timed False (snd (main sample_env calm))) =
     [Publish [''/site/18F/docs'', ''site/18F/docs'', ''site-bucket'', ''max-age=60'',
               ''us-gov-west-1'', ''AKIDEXAMPLE'', ''wJalrEXAMPLEKEY''],
      Log INFO ''Total build time: 3m 20s'', NotifyComplete]
   \<and> drop 7 (snd (main sample_env deadline_during_complete)) =
     [Publish [''/site/18F/docs'', ''site/18F/docs'', ''site-bucket'', ''max-age=60'',
               ''us-gov-west-1'', ''AKIDEXAMPLE'', ''wJalrEXAMPLEKEY''],
      Log INFO ''Total build time: 3m 20s'', NotifyComplete, TimerStop,
      Log WARNING ''Build(18F/docs@id:42) has timed out'', NotifyTimeout]"
  by (simp add: main_calm main_deadline_during_complete)

text \<open>
  Claim C10. The values that \<^verbatim>\<open>decrypt\<close> returned for the user's variables are the last
  entries of the secret set, and they are on the command lines: every command that a run
  executes is either \<^verbatim>\<open>build-static\<close>, which has no flags, or the command of
  \<^verbatim>\<open>run-federalist-script\<close>, \<^verbatim>\<open>build-jekyll\<close> or \<^verbatim>\<open>build-hugo\<close>, whose flag
  \<^verbatim>\<open>--user-env-vars\<close> is the shell-quoted JSON text of the decrypted variables and is read by
  the shell as the single word \<^verbatim>\<open>--user-env-vars=\<close> followed by that text. The JSON text
  contains the JSON string of every decrypted value, which is the value itself between double
  quotes when the value is made of printable ASCII characters other than the double quote and
  the backslash.
\<close>

theorem plaintext_on_command_lines:
  assumes "startup env w = Inr (cfg, uevs, priv)"
  shows "(\<exists>xs creds. iterate (USER_ENVIRONMENT_VARIABLES cfg) = Inr xs
      \<and> list_all2 (\<lambda>uev (name, val). subscript uev ''name'' = Inr name \<and>
          (\<exists>ciphertext. subscript uev ''ciphertext'' = Inr ciphertext
             \<and> decrypt w ciphertext (USER_ENVIRONMENT_VARIABLE_KEY cfg) = Inr val)) xs uevs
      \<and> priv = creds @ map snd uevs)
    \<and> (\<forall>c \<in> set (commands (snd (main env w))).
         c = command ''build-static'' None
         \<or> (\<exists>task flags.
              c = command task (Some flags)
              \<and> task \<in> {''run-federalist-script'', ''build-jekyll'', ''build-hugo''}
              \<and> (''--user-env-vars'', json_dumps (uevs_value uevs)) \<in> set flags
              \<and> (''--user-env-vars='' @ shlex_quote (json_dumps (uevs_value uevs)))
                   \<in> set (flag_args (Some flags))
              \<and> (\<exists>ws. sh_words c = Some ws
                    \<and> Word (''--user-env-vars='' @ json_dumps (uevs_value uevs)) \<in> set ws)))
    \<and> (\<forall>(name, val) \<in> set uevs.
         (\<exists>pre post. json_dumps (uevs_value uevs) = pre @ json_string val @ post)
         \<and> ((\<forall>c \<in> set val. plain_char c) \<longrightarrow> json_string val = [dquote] @ val @ [dquote]))"
proof (intro conjI ballI)
  show "\<exists>xs creds. iterate (USER_ENVIRONMENT_VARIABLES cfg) = Inr xs
      \<and> list_all2 (\<lambda>uev (name, val). subscript uev ''name'' = Inr name \<and>
          (\<exists>ciphertext. subscript uev ''ciphertext'' = Inr ciphertext
             \<and> decrypt w ciphertext (USER_ENVIRONMENT_VARIABLE_KEY cfg) = Inr val)) xs uevs
      \<and> priv = creds @ map snd uevs"
    by (rule startup_plaintexts [OF assms])
next
  fix c assume "c \<in> set (commands (snd (main env w)))"
  then have "c \<in> set (commands (snd (attempt w cfg uevs [InitLogging priv])))"
    by (simp add: commands_main [OF assms])
  with attempt_commands_all [of w cfg uevs priv] consider
      "c = command ''run-federalist-script'' (Some (build_flags cfg uevs))"
    | "c = command ''build-jekyll'' (Some (build_flags cfg uevs @ [(''--config'', CONFIG cfg)]))"
    | "c = command ''build-hugo'' (Some (build_flags cfg uevs))"
    | "c = command ''build-static'' None"
    by blast
  then show "c = command ''build-static'' None
         \<or> (\<exists>task flags.
              c = command task (Some flags)
              \<and> task \<in> {''run-federalist-script'', ''build-jekyll'', ''build-hugo''}
              \<and> (''--user-env-vars'', json_dumps (uevs_value uevs)) \<in> set flags
              \<and> (''--user-env-vars='' @ shlex_quote (json_dumps (uevs_value uevs)))
                   \<in> set (flag_args (Some flags))
              \<and> (\<exists>ws. sh_words c = Some ws
                    \<and> Word (''--user-env-vars='' @ json_dumps (uevs_value uevs)) \<in> set ws))"
  proof cases
    case 1
    from build_command_words [OF _ safe_tasks(1), of "build_flags cfg uevs" cfg uevs] 1
    show ?thesis by (intro disjI2 exI [of _ "''run-federalist-script''"] exI [of _ "build_flags cfg uevs"]) simp
  next
    case 2
    from build_command_words [OF _ safe_tasks(2), of "build_flags cfg uevs @ [(''--config'', CONFIG cfg)]" cfg uevs "CONFIG cfg"] 2
    show ?thesis by (intro disjI2 exI [of _ "''build-jekyll''"] exI [of _ "build_flags cfg uevs @ [(''--config'', CONFIG cfg)]"]) simp
  next
    case 3
    from build_command_words [OF _ safe_tasks(3), of "build_flags cfg uevs" cfg uevs] 3
    show ?thesis by (intro disjI2 exI [of _ "''build-hugo''"] exI [of _ "build_flags cfg uevs"]) simp
  next
    case 4
    then show ?thesis by simp
  qed
next
  fix x assume x: "x \<in> set uevs"
  obtain name val where nv: "x = (name, val)" by (cases x)
  with x uev_in_json [of name val uevs] json_string_plain [of val]
  show "case x of (name, val) \<Rightarrow>
         (\<exists>pre post. json_dumps (uevs_value uevs) = pre @ json_string val @ post)
         \<and> ((\<forall>c \<in> set val. plain_char c) \<longrightarrow> json_string val = [dquote] @ val @ [dquote])"
    by simp
qed

text \<open>The same for the sample run, whose variable \<^verbatim>\<open>API_KEY\<close> decrypts to \<^verbatim>\<open>s3cr3t\<close>.\<close>

theorem plaintext_on_command_lines_witness:
  "startup sample_env calm = Inr (sample_config, sample_decrypted, sample_private)
   \<and> sample_decrypted = [(JStr ''API_KEY'', ''s3cr3t'')]
   \<and> command ''run-federalist-script'' (Some (build_flags sample_config sample_decrypted))
        \<in> set (commands (snd (main sample_env calm)))
   \<and> command ''run-federalist-script'' (Some (build_flags sample_config sample_decrypted)) =
        ''inv run-federalist-script --branch=main --owner=18F --repository=docs''
        @ '' --site-prefix=site/18F/docs --base-url=/site/18F/docs --user-env-vars=''
        @ [squote, CHR ''['', CHR ''{'', dquote] @ ''name'' @ [dquote] @ '': '' @ [dquote]
        @ ''API_KEY'' @ [dquote] @ '', '' @ [dquote] @ ''value'' @ [dquote] @ '': '' @ [dquote]
        @ ''s3cr3t'' @ [dquote] @ ''}]'' @ [squote]
   \<and> (\<exists>ws. sh_words (command ''run-federalist-script''
                         (Some (build_flags sample_config sample_decrypted))) = Some ws
          \<and> Word (''--user-env-vars='' @ [CHR ''['', CHR ''{'', dquote] @ ''name'' @ [dquote] @ '': ''
               @ [dquote] @ ''API_KEY'' @ [dquote] @ '', '' @ [dquote] @ ''value'' @ [dquote]
               @ '': '' @ [dquote] @ ''s3cr3t'' @ [dquote] @ ''}]'') \<in> set ws)"
proof -
  let ?c = "command ''run-federalist-script'' (Some (build_flags sample_config sample_decrypted))"
  have m: "?c \<in> set (commands (snd (main sample_env calm)))"
    by (simp add: main_calm)
  have n: "?c \<noteq> command ''build-static'' None"
    by (simp add: command_def)
  from plaintext_on_command_lines [OF startup_calm] m
  have "?c = command ''build-static'' None
         \<or> (\<exists>task flags.
              ?c = command task (Some flags)
              \<and> task \<in> {''run-federalist-script'', ''build-jekyll'', ''build-hugo''}
              \<and> (''--user-env-vars'', json_dumps (uevs_value sample_decrypted)) \<in> set flags
              \<and> (''--user-env-vars='' @ shlex_quote (json_dumps (uevs_value sample_decrypted)))
                   \<in> set (flag_args (Some flags))
              \<and> (\<exists>ws. sh_words ?c = Some ws
                    \<and> Word (''--user-env-vars='' @ json_dumps (uevs_value sample_decrypted)) \<in> set ws))"
    by blast
  with n have "\<exists>ws. sh_words ?c = Some ws
                    \<and> Word (''--user-env-vars='' @ json_dumps (uevs_value sample_decrypted)) \<in> set ws"
    by blast
  then have "\<exists>ws. sh_words ?c = Some ws
          \<and> Word (''--user-env-vars='' @ [CHR ''['', CHR ''{'', dquote] @ ''name'' @ [dquote] @ '': ''
               @ [dquote] @ ''API_KEY'' @ [dquote] @ '', '' @ [dquote] @ ''value'' @ [dquote]
               @ '': '' @ [dquote] @ ''s3cr3t'' @ [dquote] @ ''}]'') \<in> set ws"
    by (simp only: json_sample_decrypted)
  with m startup_calm sample_script_command sample_decrypted_def show ?thesis by blast
qed

end
